theory Spec2Isabelle
  imports Complex_Main "HOL-Library.Char_ord" "HOL-Library.List_Lexorder"
begin

section \<open>JavaScript values\<close>

text \<open>
  A JavaScript number is a double: a finite value, NaN or one of the two infinities. A
  finite double is modelled by the real number it stands for; comparisons between doubles
  are then exact, and every arithmetic operation rounds its exact result to the nearest
  double (\<open>toDouble\<close> below), overflowing to an infinity. Zero carries no sign. Strings are
  lists of 8-bit characters, which covers the ASCII labels the backend sends.
\<close>

datatype jsnum = Finite real | NaN | PosInf | NegInf

text \<open>A value of the TypeScript type \<^verbatim>\<open>number | string | null\<close>.\<close>

datatype jsval = Num jsnum | Str string | Null

fun isNaN :: "jsnum \<Rightarrow> bool" where
  "isNaN NaN = True"
| "isNaN _ = False"

text \<open>The relational operators: every comparison with NaN is false.\<close>

fun js_lt :: "jsnum \<Rightarrow> jsnum \<Rightarrow> bool" where
  "js_lt (Finite a) (Finite b) = (a < b)"
| "js_lt (Finite a) PosInf = True"
| "js_lt NegInf (Finite b) = True"
| "js_lt NegInf PosInf = True"
| "js_lt _ _ = False"

fun js_le :: "jsnum \<Rightarrow> jsnum \<Rightarrow> bool" where
  "js_le (Finite a) (Finite b) = (a \<le> b)"
| "js_le (Finite a) PosInf = True"
| "js_le NegInf (Finite b) = True"
| "js_le NegInf PosInf = True"
| "js_le NegInf NegInf = True"
| "js_le PosInf PosInf = True"
| "js_le _ _ = False"

definition js_gt :: "jsnum \<Rightarrow> jsnum \<Rightarrow> bool" where
  "js_gt a b = js_lt b a"

definition js_ge :: "jsnum \<Rightarrow> jsnum \<Rightarrow> bool" where
  "js_ge a b = js_le b a"

subsection \<open>Rounding to a double\<close>

text \<open>
  The finite doubles are the numbers \<open>m * 2^e\<close> with an integer \<open>m\<close> below \<open>2^53\<close> in
  magnitude and \<open>-1074 \<le> e \<le> 971\<close>. \<open>exponent a\<close> is the binary exponent of the binade of
  \<open>a \<ge> 0\<close>, not below \<open>-1022\<close> (the subnormal numbers share it); \<open>ulp a\<close> is the distance
  between neighbouring doubles there.
\<close>

definition pow2 :: "int \<Rightarrow> real" where
  "pow2 e = (if 0 \<le> e then 2 ^ nat e else 1 / 2 ^ nat (- e))"

text \<open>The exponent is found by halving a number from 1 on until it is below 2, and by
  doubling a number below 1 until it reaches 1, at most 1022 times.\<close>

function expoUp :: "real \<Rightarrow> int" where
  "expoUp x = (if x < 2 then 0 else expoUp (x / 2) + 1)"
  by pat_completeness auto
termination
  by (relation "measure (\<lambda>x. nat \<lfloor>x\<rfloor>)") (auto, linarith)

declare expoUp.simps [simp del]

fun expoDown :: "nat \<Rightarrow> real \<Rightarrow> int" where
  "expoDown 0 x = 0"
| "expoDown (Suc n) x = (if 1 \<le> x then 0 else expoDown n (2 * x) - 1)"

definition exponent :: "real \<Rightarrow> int" where
  "exponent a = (if 1 \<le> a then expoUp a else expoDown 1022 a)"

definition ulp :: "real \<Rightarrow> real" where
  "ulp a = pow2 (exponent a - 52)"

text \<open>Rounding to the nearest integer, a tie going to the even one.\<close>

definition roundHalfEven :: "real \<Rightarrow> int" where
  "roundHalfEven y =
     (let f = \<lfloor>y\<rfloor>
      in if y - of_int f < 1 / 2 then f
         else if 1 / 2 < y - of_int f then f + 1
         else if even f then f else f + 1)"

definition roundMagnitude :: "real \<Rightarrow> real" where
  "roundMagnitude a = of_int (roundHalfEven (a / ulp a)) * ulp a"

text \<open>
  The double nearest to a real number (round to nearest, ties to even), an infinity when
  the rounded magnitude reaches \<open>2^1024\<close>. Addition, subtraction, multiplication and
  division of doubles, and the reading of a decimal literal, give the exact result rounded
  this way.
\<close>

definition toDouble :: "real \<Rightarrow> jsnum" where
  "toDouble x =
     (let r = roundMagnitude \<bar>x\<bar>
      in if 2 ^ 1024 \<le> r then (if x < 0 then NegInf else PosInf)
         else Finite (if x < 0 then - r else r))"

text \<open>The reals that are doubles.\<close>

definition isDouble :: "real \<Rightarrow> bool" where
  "isDouble r = (toDouble r = Finite r)"

subsection \<open>Strings\<close>

definition isUpperChar :: "char \<Rightarrow> bool" where
  "isUpperChar c = (65 \<le> (of_char c :: nat) \<and> (of_char c :: nat) \<le> 90)"

definition toLowerChar :: "char \<Rightarrow> char" where
  "toLowerChar c = (if isUpperChar c then char_of ((of_char c :: nat) + 32) else c)"

text \<open>\<^verbatim>\<open>String.prototype.toLowerCase\<close> on ASCII text.\<close>

definition toLowerCase :: "string \<Rightarrow> string" where
  "toLowerCase s = map toLowerChar s"

fun startsWith :: "string \<Rightarrow> string \<Rightarrow> bool" where
  "startsWith s [] = True"
| "startsWith [] (p # ps) = False"
| "startsWith (c # cs) (p # ps) = (c = p \<and> startsWith cs ps)"

text \<open>\<^verbatim>\<open>String.prototype.includes\<close>: the second string occurs somewhere in the first.\<close>

fun includes_str :: "string \<Rightarrow> string \<Rightarrow> bool" where
  "includes_str [] t = (t = [])"
| "includes_str (c # cs) t = (startsWith (c # cs) t \<or> includes_str cs t)"

text \<open>
  \<^verbatim>\<open>String(v ?? "")\<close>. The text of a number is whatever \<^verbatim>\<open>Number.prototype.toString\<close>
  gives; it is a parameter of the model.
\<close>

definition String_js :: "(jsnum \<Rightarrow> string) \<Rightarrow> jsval \<Rightarrow> string" where
  "String_js numToString v =
     (case v of Null \<Rightarrow> '''' | Str s \<Rightarrow> s | Num n \<Rightarrow> numToString n)"

subsection \<open>parseFloat\<close>

text \<open>The white space and line terminator characters up to U+00FF: tab, line feed,
  vertical tab, form feed, carriage return, space and the no-break space U+00A0.\<close>

definition isWhiteSpace :: "char \<Rightarrow> bool" where
  "isWhiteSpace c = ((of_char c :: nat) \<in> {9, 10, 11, 12, 13, 32, 160})"

definition isDigit :: "char \<Rightarrow> bool" where
  "isDigit c = (48 \<le> (of_char c :: nat) \<and> (of_char c :: nat) \<le> 57)"

definition digitVal :: "char \<Rightarrow> nat" where
  "digitVal c = (of_char c :: nat) - 48"

text \<open>The value of a run of decimal digits, most significant first.\<close>

definition digitsVal :: "string \<Rightarrow> nat" where
  "digitsVal ds = foldl (\<lambda>acc c. 10 * acc + digitVal c) 0 ds"

definition scale10 :: "real \<Rightarrow> int \<Rightarrow> real" where
  "scale10 m e = (if 0 \<le> e then m * 10 ^ nat e else m / 10 ^ nat (- e))"

text \<open>The exponent part after the mantissa, or 0 when there is none.\<close>

definition exponentPart :: "string \<Rightarrow> int" where
  "exponentPart r =
     (case r of
        [] \<Rightarrow> 0
      | e # r1 \<Rightarrow>
          if e = CHR ''e'' \<or> e = CHR ''E'' then
            (case r1 of
               [] \<Rightarrow> 0
             | s # r2 \<Rightarrow>
                 if s = CHR ''-'' then
                   (if takeWhile isDigit r2 = [] then 0
                    else - int (digitsVal (takeWhile isDigit r2)))
                 else if s = CHR ''+'' then int (digitsVal (takeWhile isDigit r2))
                 else int (digitsVal (takeWhile isDigit r1)))
          else 0)"

text \<open>An unsigned decimal literal at the start of the text: \<^verbatim>\<open>Infinity\<close>, or digits
  with an optional fraction and exponent, its decimal value rounded to a double. No literal
  there is NaN.\<close>

definition parseUnsigned :: "string \<Rightarrow> jsnum" where
  "parseUnsigned r =
     (if startsWith r ''Infinity'' then PosInf
      else
        let intDigits = takeWhile isDigit r;
            r1 = dropWhile isDigit r;
            hasDot = (case r1 of [] \<Rightarrow> False | c # _ \<Rightarrow> c = CHR ''.'');
            fracDigits = (if hasDot then takeWhile isDigit (tl r1) else []);
            r2 = (if hasDot then dropWhile isDigit (tl r1) else r1)
        in if intDigits = [] \<and> fracDigits = [] then NaN
           else toDouble (scale10
                  (real (digitsVal intDigits)
                    + real (digitsVal fracDigits) / 10 ^ length fracDigits)
                  (exponentPart r2)))"

fun js_neg :: "jsnum \<Rightarrow> jsnum" where
  "js_neg (Finite a) = Finite (- a)"
| "js_neg NaN = NaN"
| "js_neg PosInf = NegInf"
| "js_neg NegInf = PosInf"

text \<open>\<^verbatim>\<open>parseFloat\<close>: leading white space is skipped, then the longest prefix that is a
  signed decimal literal is read.\<close>

definition parseFloat :: "string \<Rightarrow> jsnum" where
  "parseFloat s =
     (case dropWhile isWhiteSpace s of
        [] \<Rightarrow> NaN
      | c # r \<Rightarrow>
          if c = CHR ''-'' then js_neg (parseUnsigned r)
          else if c = CHR ''+'' then parseUnsigned r
          else parseUnsigned (c # r))"

text \<open>
  A text is not numeric when, after leading white space and one optional sign, it starts
  neither with a digit, nor with a dot and a digit, nor with \<^verbatim>\<open>Infinity\<close>.
\<close>

definition startsNumeral :: "string \<Rightarrow> bool" where
  "startsNumeral r =
     (startsWith r ''Infinity''
      \<or> (case r of
            [] \<Rightarrow> False
          | c # r1 \<Rightarrow>
              isDigit c
              \<or> (c = CHR ''.'' \<and> (case r1 of [] \<Rightarrow> False | d # r2 \<Rightarrow> isDigit d))))"

definition nonNumericText :: "string \<Rightarrow> bool" where
  "nonNumericText s =
     (case dropWhile isWhiteSpace s of
        [] \<Rightarrow> True
      | c # r \<Rightarrow>
          if c = CHR ''-'' \<or> c = CHR ''+'' then \<not> startsNumeral r
          else \<not> startsNumeral (c # r))"

section \<open>Quality raters of the comparison view\<close>

datatype color = Green | Yellow | Red

record QualityRating =
  label :: string
  color :: color

text \<open>\<^verbatim>\<open>rateNumeric\<close> of comparison-view.tsx. A threshold that is \<^verbatim>\<open>null\<close> is \<open>None\<close>.\<close>

definition rateNumeric ::
  "jsval \<Rightarrow> jsnum option \<Rightarrow> jsnum option \<Rightarrow> jsnum option \<Rightarrow> jsnum option
     \<Rightarrow> string \<times> string \<times> string \<Rightarrow> QualityRating" where
  "rateNumeric v goodBelow goodAbove fairBelow fairAbove labels =
     (let n = (case v of Num x \<Rightarrow> x | Str s \<Rightarrow> parseFloat s | Null \<Rightarrow> parseFloat '''')
      in if isNaN n then \<lparr>label = ''N/A'', color = Yellow\<rparr>
         else if (case goodBelow of None \<Rightarrow> False | Some g \<Rightarrow> js_lt n g)
           then \<lparr>label = fst labels, color = Green\<rparr>
         else if (case goodAbove of None \<Rightarrow> False | Some g \<Rightarrow> js_ge n g)
           then \<lparr>label = fst labels, color = Green\<rparr>
         else if (case fairBelow of None \<Rightarrow> False
                  | Some fb \<Rightarrow> (case fairAbove of None \<Rightarrow> False
                                | Some fa \<Rightarrow> js_ge n fb \<and> js_le n fa))
           then \<lparr>label = fst (snd labels), color = Yellow\<rparr>
         else if (case fairBelow of None \<Rightarrow> False
                  | Some fb \<Rightarrow> js_ge n fb \<and> fairAbove = None)
           then \<lparr>label = fst (snd labels), color = Yellow\<rparr>
         else if (case fairAbove of None \<Rightarrow> False
                  | Some fa \<Rightarrow> js_le n fa \<and> fairBelow = None)
           then \<lparr>label = fst (snd labels), color = Yellow\<rparr>
         else \<lparr>label = snd (snd labels), color = Red\<rparr>)"

text \<open>\<^verbatim>\<open>rateRisk\<close> and \<^verbatim>\<open>rateDividends\<close> of comparison-view.tsx.\<close>

definition rateRisk :: "(jsnum \<Rightarrow> string) \<Rightarrow> jsval \<Rightarrow> QualityRating" where
  "rateRisk numToString v =
     (let s = toLowerCase (String_js numToString v)
      in if s = ''low'' then \<lparr>label = ''Low Risk'', color = Green\<rparr>
         else if s = ''moderate'' then \<lparr>label = ''Medium Risk'', color = Yellow\<rparr>
         else \<lparr>label = ''High Risk'', color = Red\<rparr>)"

definition rateDividends :: "(jsnum \<Rightarrow> string) \<Rightarrow> jsval \<Rightarrow> QualityRating" where
  "rateDividends numToString v =
     (let s = toLowerCase (String_js numToString v)
      in if includes_str s ''consistent'' \<or> includes_str s ''regular''
           then \<lparr>label = ''Consistent'', color = Green\<rparr>
         else if includes_str s ''irregular'' then \<lparr>label = ''Irregular'', color = Yellow\<rparr>
         else \<lparr>label = ''No Dividends'', color = Red\<rparr>)"

text \<open>
  \<^verbatim>\<open>METRIC_CONFIG\<close>: the seven metrics in display order, each with its title and its
  \<^verbatim>\<open>rateValue\<close> function (the icon and the explanatory texts are left out).
\<close>

record MetricConfig =
  friendlyTitle :: string
  rateValue :: "jsval \<Rightarrow> QualityRating"

definition METRIC_CONFIG :: "(jsnum \<Rightarrow> string) \<Rightarrow> MetricConfig list" where
  "METRIC_CONFIG numToString =
     [ \<lparr>friendlyTitle = ''Price-to-Earnings (P/E)'',
        rateValue = (\<lambda>v. rateNumeric v (Some (Finite 15)) None (Some (Finite 15))
                            (Some (Finite 25)) (''Looks Cheap'', ''Fair Price'', ''Expensive''))\<rparr>,
       \<lparr>friendlyTitle = ''Net Profit Margin'',
        rateValue = (\<lambda>v. rateNumeric v None (Some (Finite 15)) (Some (Finite 5))
                            (Some (Finite 15)) (''Healthy'', ''Average'', ''Low''))\<rparr>,
       \<lparr>friendlyTitle = ''Earnings Growth (EPS)'',
        rateValue = (\<lambda>v. rateNumeric v None (Some (Finite 10)) (Some (Finite 0))
                            (Some (Finite 10)) (''Strong Growth'', ''Stable'', ''Declining''))\<rparr>,
       \<lparr>friendlyTitle = ''1-Year Price Change'',
        rateValue = (\<lambda>v. rateNumeric v None (Some (Finite 20)) (Some (Finite 0))
                            (Some (Finite 20)) (''Strong Rally'', ''Moderate'', ''Lost Value''))\<rparr>,
       \<lparr>friendlyTitle = ''Free Float'',
        rateValue = (\<lambda>v. rateNumeric v None (Some (Finite 40)) (Some (Finite 20))
                            (Some (Finite 40)) (''Very Liquid'', ''Moderate'', ''Low Liquidity''))\<rparr>,
       \<lparr>friendlyTitle = ''Risk Level'', rateValue = rateRisk numToString\<rparr>,
       \<lparr>friendlyTitle = ''Dividend Track Record'', rateValue = rateDividends numToString\<rparr> ]"

section \<open>Single-stock health check\<close>

record PERating =
  pe_label :: string
  pe_color :: string
  pe_bgColor :: string

text \<open>\<^verbatim>\<open>getPERating\<close> of the health check; \<open>None\<close> is \<^verbatim>\<open>null\<close>.\<close>

definition getPERating :: "jsnum option \<Rightarrow> PERating" where
  "getPERating pe =
     (case pe of
        None \<Rightarrow> \<lparr>pe_label = ''N/A'', pe_color = ''#404E3F'', pe_bgColor = ''#E5E0D9''\<rparr>
      | Some p \<Rightarrow>
          if js_le p (Finite 0)
            then \<lparr>pe_label = ''N/A'', pe_color = ''#404E3F'', pe_bgColor = ''#E5E0D9''\<rparr>
          else if js_lt p (Finite 15)
            then \<lparr>pe_label = ''Looks Cheap'', pe_color = ''#4BC232'', pe_bgColor = ''#4BC232''\<rparr>
          else if js_le p (Finite 25)
            then \<lparr>pe_label = ''Fair Price'', pe_color = ''#d97706'', pe_bgColor = ''#d97706''\<rparr>
          else \<lparr>pe_label = ''Expensive'', pe_color = ''#ef4444'', pe_bgColor = ''#ef4444''\<rparr>)"

record RatioYear =
  year :: string
  net_profit_margin :: "jsnum option"
  eps_growth :: "jsnum option"
  peg :: "jsnum option"

definition latestRatio :: "RatioYear list \<Rightarrow> RatioYear option" where
  "latestRatio ratios = (if length ratios > 0 then Some (last ratios) else None)"

text \<open>
  The net-profit-margin block of \<^verbatim>\<open>HealthCheck\<close>: not rendered (\<open>None\<close>) without a latest
  ratio year or without a margin, otherwise the colour of the bar and the sentence under it.
\<close>

definition marginColor :: "jsnum \<Rightarrow> string" where
  "marginColor m =
     (if js_ge m (Finite 15) then ''#4BC232''
      else if js_ge m (Finite 5) then ''#d97706''
      else ''#ef4444'')"

definition marginText :: "jsnum \<Rightarrow> string" where
  "marginText m =
     (if js_ge m (Finite 15)
        then ''Healthy margins -- the company keeps a good chunk of its revenue as profit.''
      else if js_ge m (Finite 5)
        then ''Average margins -- the company is profitable but could do better.''
      else ''Low margins -- the company keeps very little profit from its revenue.'')"

definition HealthCheck_margin :: "RatioYear list \<Rightarrow> (string \<times> string) option" where
  "HealthCheck_margin ratios =
     (case latestRatio ratios of
        None \<Rightarrow> None
      | Some r \<Rightarrow>
          (case net_profit_margin r of
             None \<Rightarrow> None
           | Some m \<Rightarrow> Some (marginColor m, marginText m)))"

text \<open>The EPS-growth block of \<^verbatim>\<open>HealthCheck\<close>: the sentence under the figure.\<close>

definition epsGrowthText :: "jsnum \<Rightarrow> string" where
  "epsGrowthText g =
     (if js_ge g (Finite 10)
        then ''Strong growth! The company'' @ [CHR 0x27]
               @ ''s per-share profit is increasing nicely.''
      else if js_ge g (Finite 0)
        then ''Moderate growth -- per-share profit is stable or slowly rising.''
      else ''Per-share profit is shrinking. This needs watching.'')"

definition HealthCheck_epsGrowth :: "RatioYear list \<Rightarrow> string option" where
  "HealthCheck_epsGrowth ratios =
     (case latestRatio ratios of
        None \<Rightarrow> None
      | Some r \<Rightarrow>
          (case eps_growth r of
             None \<Rightarrow> None
           | Some g \<Rightarrow> Some (epsGrowthText g)))"

section \<open>Final verdict: the risk meter\<close>

record RiskConfig =
  risk_percent :: nat
  risk_color :: string
  risk_label :: string

text \<open>\<^verbatim>\<open>getRiskConfig\<close> of final-verdict.tsx.\<close>

definition getRiskConfig :: "string \<Rightarrow> RiskConfig" where
  "getRiskConfig risk =
     (let r = toLowerCase risk
      in if includes_str r ''low''
           then \<lparr>risk_percent = 25, risk_color = ''#4BC232'', risk_label = ''Low Risk''\<rparr>
         else if includes_str r ''high'' \<or> includes_str r ''very''
           then \<lparr>risk_percent = 85, risk_color = ''#ef4444'', risk_label = ''High Risk''\<rparr>
         else \<lparr>risk_percent = 50, risk_color = ''#d97706'', risk_label = ''Medium Risk''\<rparr>)"

text \<open>
  Two strings are letter-casing variants of each other when they have the same length and,
  position by position, the same character up to the case of an ASCII letter.
\<close>

definition sameLetter :: "char \<Rightarrow> char \<Rightarrow> bool" where
  "sameLetter c d = (c = d \<or> toLowerChar c = d \<or> c = toLowerChar d)"

definition casingVariant :: "string \<Rightarrow> string \<Rightarrow> bool" where
  "casingVariant s t = list_all2 sameLetter s t"

section \<open>Trend badges\<close>

record FinancialYear =
  period :: string
  sales :: "jsnum option"
  total_income :: "jsnum option"
  profit_after_tax :: "jsnum option"
  eps :: "jsnum option"

text \<open>\<^verbatim>\<open>x ?? 0\<close>.\<close>

definition orZero :: "jsnum option \<Rightarrow> jsnum" where
  "orZero x = (case x of None \<Rightarrow> Finite 0 | Some n \<Rightarrow> n)"

text \<open>
  \<^verbatim>\<open>MoneyTalk\<close>: \<open>sorted\<close> is the copy of the financial years ordered by period. The
  income and profit series replace an absent figure by 0; the trend compares the last entry
  with the first.
\<close>

definition incomes :: "FinancialYear list \<Rightarrow> jsnum list" where
  "incomes sorted_fy = map (\<lambda>f. orZero (total_income f)) sorted_fy"

definition profits :: "FinancialYear list \<Rightarrow> jsnum list" where
  "profits sorted_fy = map (\<lambda>f. orZero (profit_after_tax f)) sorted_fy"

definition isGrowingIncome :: "FinancialYear list \<Rightarrow> bool" where
  "isGrowingIncome sorted_fy =
     (length (incomes sorted_fy) \<ge> 2
      \<and> js_gt (incomes sorted_fy ! (length (incomes sorted_fy) - 1)) (incomes sorted_fy ! 0))"

definition isGrowingProfit :: "FinancialYear list \<Rightarrow> bool" where
  "isGrowingProfit sorted_fy =
     (length (profits sorted_fy) \<ge> 2
      \<and> js_gt (profits sorted_fy ! (length (profits sorted_fy) - 1)) (profits sorted_fy ! 0))"

text \<open>The text of \<^verbatim>\<open>TrendBadge\<close>.\<close>

definition TrendBadge :: "bool \<Rightarrow> string" where
  "TrendBadge isGrowing = (if isGrowing then ''Growing'' else ''Declining'')"

text \<open>
  \<^verbatim>\<open>CompareTrendBadge\<close> of the comparison view: absent entries are dropped first, and
  with fewer than two known entries no badge is rendered (\<open>None\<close>).
\<close>

definition nonNull :: "jsnum option list \<Rightarrow> jsnum list" where
  "nonNull vals = map the (filter (\<lambda>v. v \<noteq> None) vals)"

definition CompareTrendBadge :: "jsnum option list \<Rightarrow> string option" where
  "CompareTrendBadge vals =
     (if length (nonNull vals) < 2 then None
      else if js_gt (nonNull vals ! (length (nonNull vals) - 1)) (nonNull vals ! 0)
        then Some ''Growing''
      else Some ''Declining'')"

section \<open>Arithmetic on JavaScript numbers\<close>

text \<open>
  The arithmetic operators: on finite doubles the exact result rounded to a double, and the
  special values otherwise. Zero carries no sign in this model, so a positive value divided
  by zero is always \<open>PosInf\<close>.
\<close>

fun js_add :: "jsnum \<Rightarrow> jsnum \<Rightarrow> jsnum" where
  "js_add (Finite a) (Finite b) = toDouble (a + b)"
| "js_add NaN b = NaN"
| "js_add a NaN = NaN"
| "js_add PosInf NegInf = NaN"
| "js_add NegInf PosInf = NaN"
| "js_add PosInf b = PosInf"
| "js_add NegInf b = NegInf"
| "js_add (Finite a) b = b"

definition js_sub :: "jsnum \<Rightarrow> jsnum \<Rightarrow> jsnum" where
  "js_sub a b = js_add a (js_neg b)"

fun js_mul :: "jsnum \<Rightarrow> jsnum \<Rightarrow> jsnum" where
  "js_mul (Finite a) (Finite b) = toDouble (a * b)"
| "js_mul NaN b = NaN"
| "js_mul a NaN = NaN"
| "js_mul (Finite a) b =
     (if a = 0 then NaN else if (0 < a) = (b = PosInf) then PosInf else NegInf)"
| "js_mul a (Finite b) =
     (if b = 0 then NaN else if (0 < b) = (a = PosInf) then PosInf else NegInf)"
| "js_mul a b = (if a = b then PosInf else NegInf)"

fun js_div :: "jsnum \<Rightarrow> jsnum \<Rightarrow> jsnum" where
  "js_div (Finite a) (Finite b) =
     (if b = 0 then (if a = 0 then NaN else if 0 < a then PosInf else NegInf)
      else toDouble (a / b))"
| "js_div NaN b = NaN"
| "js_div a NaN = NaN"
| "js_div (Finite a) b = Finite 0"
| "js_div a (Finite b) = (if (0 \<le> b) = (a = PosInf) then PosInf else NegInf)"
| "js_div a b = NaN"

text \<open>\<^verbatim>\<open>Math.max\<close> and \<^verbatim>\<open>Math.min\<close> of two numbers, and of a spread list of numbers
  (with no number at all they give \<open>-Infinity\<close> and \<open>Infinity\<close>).\<close>

definition Math_max :: "jsnum \<Rightarrow> jsnum \<Rightarrow> jsnum" where
  "Math_max a b = (if isNaN a \<or> isNaN b then NaN else if js_lt a b then b else a)"

definition Math_min :: "jsnum \<Rightarrow> jsnum \<Rightarrow> jsnum" where
  "Math_min a b = (if isNaN a \<or> isNaN b then NaN else if js_lt b a then b else a)"

definition Math_max_list :: "jsnum list \<Rightarrow> jsnum" where
  "Math_max_list xs = foldl Math_max NegInf xs"

definition Math_min_list :: "jsnum list \<Rightarrow> jsnum" where
  "Math_min_list xs = foldl Math_min PosInf xs"

text \<open>\<^verbatim>\<open>Math.round\<close>: the nearest integer, a half rounding up. The result is exact.\<close>

fun Math_round :: "jsnum \<Rightarrow> jsnum" where
  "Math_round (Finite a) = Finite (of_int \<lfloor>a + 1 / 2\<rfloor>)"
| "Math_round a = a"

text \<open>\<^verbatim>\<open>x || 1\<close>: zero and NaN are falsy.\<close>

definition orOne :: "jsnum \<Rightarrow> jsnum" where
  "orOne x = (if x = Finite 0 \<or> isNaN x then Finite 1 else x)"

text \<open>A number field as JSON delivers it: absent, or a finite double.\<close>

fun doubleOrAbsent :: "jsnum option \<Rightarrow> bool" where
  "doubleOrAbsent None = True"
| "doubleOrAbsent (Some (Finite a)) = isDouble a"
| "doubleOrAbsent (Some a) = False"

section \<open>Company overview: the 52-week range\<close>

text \<open>The fields of \<^verbatim>\<open>Price\<close> that the components modelled here read.\<close>

record Price =
  current :: "jsnum option"
  change :: "jsnum option"
  week52_high :: "jsnum option"
  week52_low :: "jsnum option"
  pe_ratio :: "jsnum option"

text \<open>\<^verbatim>\<open>rangePercent\<close> of \<^verbatim>\<open>CompanyOverview\<close>: where the current price lies between the
  52-week low and high, in percent.\<close>

definition rangePercent :: "Price \<Rightarrow> jsnum" where
  "rangePercent price =
     (let w52High = orZero (week52_high price);
          w52Low = orZero (week52_low price);
          currentPrice = orZero (current price);
          range52 = js_sub w52High w52Low
      in if js_gt range52 (Finite 0)
           then js_mul (js_div (js_sub currentPrice w52Low) range52) (Finite 100)
         else Finite 50)"

text \<open>
  The \<^verbatim>\<open>left\<close> offset of the marker in the 52-week block. The block is rendered only when
  both the low and the high are positive; \<open>None\<close> is no block.
\<close>

definition markerLeft :: "Price \<Rightarrow> jsnum option" where
  "markerLeft price =
     (if js_gt (orZero (week52_low price)) (Finite 0)
         \<and> js_gt (orZero (week52_high price)) (Finite 0)
        then Some (Math_min (Math_max (rangePercent price) (Finite 2)) (Finite 98))
      else None)"

section \<open>Overall performance index\<close>

record TrendDataPoint =
  tdp_year :: string
  valueA :: "jsnum option"
  valueB :: "jsnum option"

text \<open>\<^verbatim>\<open>normaliseSeries\<close>: the values of both stocks over all years are scaled by their
  common minimum and maximum.\<close>

definition normaliseSeries :: "TrendDataPoint list \<Rightarrow> TrendDataPoint list" where
  "normaliseSeries data =
     (let allVals = concat (map (\<lambda>d. nonNull [valueA d, valueB d]) data)
      in if length allVals = 0 then []
         else
           let mn = Math_min_list allVals;
               mx = Math_max_list allVals;
               range = orOne (js_sub mx mn)
           in map (\<lambda>d. \<lparr>tdp_year = tdp_year d,
                          valueA = (case valueA d of None \<Rightarrow> None
                                    | Some v \<Rightarrow> Some (js_mul (js_div (js_sub v mn) range) (Finite 100))),
                          valueB = (case valueB d of None \<Rightarrow> None
                                    | Some v \<Rightarrow> Some (js_mul (js_div (js_sub v mn) range) (Finite 100)))\<rparr>)
                data)"

record CompositePoint =
  cp_year :: string
  scoreA :: jsnum
  scoreB :: jsnum
  metricsUsed :: nat

text \<open>
  One pass of the loop over the normalised series for a year: the running sums and counts
  \<open>(sumA, countA, sumB, countB)\<close> take in the first point of the series with that year.
\<close>

definition compositeStep ::
  "string \<Rightarrow> jsnum \<times> nat \<times> jsnum \<times> nat \<Rightarrow> TrendDataPoint list \<Rightarrow> jsnum \<times> nat \<times> jsnum \<times> nat" where
  "compositeStep yr acc series =
     (case acc of (sumA, countA, sumB, countB) \<Rightarrow>
        let point = find (\<lambda>d. tdp_year d = yr) series;
            accA = (case Option.bind point valueA of
                      None \<Rightarrow> (sumA, countA)
                    | Some a \<Rightarrow> (js_add sumA a, countA + 1));
            accB = (case Option.bind point valueB of
                      None \<Rightarrow> (sumB, countB)
                    | Some b \<Rightarrow> (js_add sumB b, countB + 1))
        in (fst accA, snd accA, fst accB, snd accB))"

definition compositePoint :: "TrendDataPoint list list \<Rightarrow> string \<Rightarrow> CompositePoint" where
  "compositePoint normed yr =
     (case foldl (compositeStep yr) (Finite 0, 0, Finite 0, 0) normed of
        (sumA, countA, sumB, countB) \<Rightarrow>
          \<lparr>cp_year = yr,
           scoreA = (if countA > 0 then Math_round (js_div sumA (Finite (real countA)))
                     else Finite 0),
           scoreB = (if countB > 0 then Math_round (js_div sumB (Finite (real countB)))
                     else Finite 0),
           metricsUsed = max countA countB\<rparr>)"

text \<open>\<^verbatim>\<open>buildCompositeIndex\<close>: one composite point per year that occurs in any metric, the
  years in ascending order.\<close>

definition buildCompositeIndex :: "TrendDataPoint list list \<Rightarrow> CompositePoint list" where
  "buildCompositeIndex allSeries =
     (let normed = filter (\<lambda>s. length s > 0) (map normaliseSeries allSeries)
      in if length normed = 0 then []
         else
           let years = sort (remdups (concat (map (map tdp_year) normed)))
           in map (compositePoint normed) years)"

text \<open>A score between 0 and 100.\<close>

fun inPercentRange :: "jsnum \<Rightarrow> bool" where
  "inPercentRange (Finite a) = (0 \<le> a \<and> a \<le> 100)"
| "inPercentRange a = False"

text \<open>A normalised value that is absent, or between 0 and 100.\<close>

definition inRangeOrAbsent :: "jsnum option \<Rightarrow> bool" where
  "inRangeOrAbsent x = (case x of None \<Rightarrow> True | Some v \<Rightarrow> inPercentRange v)"

text \<open>A whole number between 0 and 100.\<close>

fun isWholePercent :: "jsnum \<Rightarrow> bool" where
  "isWholePercent (Finite a) = (a = of_int \<lfloor>a\<rfloor> \<and> 0 \<le> a \<and> a \<le> 100)"
| "isWholePercent a = False"

text \<open>The invariant of the loop in \<^verbatim>\<open>buildCompositeIndex\<close> after \<open>m\<close> series: each
  running sum is a finite number between 0 and 100 times its count, and no count exceeds
  \<open>m\<close>.\<close>

definition sumsInRange :: "nat \<Rightarrow> jsnum \<times> nat \<times> jsnum \<times> nat \<Rightarrow> bool" where
  "sumsInRange m acc =
     (case acc of
        (Finite a, countA, Finite b, countB) \<Rightarrow>
          0 \<le> a \<and> a \<le> 100 * real countA \<and> countA \<le> m
          \<and> 0 \<le> b \<and> b \<le> 100 * real countB \<and> countB \<le> m
      | _ \<Rightarrow> False)"

text \<open>The difference between the largest and the smallest value of a series is too large
  for a double: \<^verbatim>\<open>max - min\<close> in \<^verbatim>\<open>normaliseSeries\<close> is \<^verbatim>\<open>Infinity\<close>.\<close>

definition spreadOverflows :: "TrendDataPoint list \<Rightarrow> bool" where
  "spreadOverflows data =
     (let allVals = concat (map (\<lambda>d. nonNull [valueA d, valueB d]) data)
      in js_sub (Math_max_list allVals) (Math_min_list allVals) = PosInf)"

text \<open>
  The composite score in the words of its description: the normalised values one side has
  for a year, one from each series that has a point for the year with a value of that side,
  and their rounded average, 0 when there is none.
\<close>

definition yearValues ::
  "(TrendDataPoint \<Rightarrow> jsnum option) \<Rightarrow> TrendDataPoint list list \<Rightarrow> string \<Rightarrow> jsnum list" where
  "yearValues side normed yr =
     concat (map (\<lambda>series.
        case Option.bind (find (\<lambda>d. tdp_year d = yr) series) side of
          None \<Rightarrow> []
        | Some v \<Rightarrow> [v]) normed)"

definition roundedAverage :: "jsnum list \<Rightarrow> jsnum" where
  "roundedAverage vals =
     (if vals = [] then Finite 0
      else Math_round (js_div (foldl js_add (Finite 0) vals) (Finite (real (length vals)))))"

section \<open>Scoreboard of the comparison view\<close>

text \<open>
  What the comparison view computes from the two scores it receives: the number of rounds
  in the headline of \<^verbatim>\<open>QuickVerdict\<close>, and the number of ties in \<^verbatim>\<open>VisualScoreboard\<close>,
  whose total \<open>n\<close> is the number of metrics of the result.
\<close>

definition QuickVerdict_total :: "int \<Rightarrow> int \<Rightarrow> int" where
  "QuickVerdict_total sa sb = sa + sb + (7 - sa - sb)"

definition VisualScoreboard_ties :: "int \<Rightarrow> int \<Rightarrow> int \<Rightarrow> int" where
  "VisualScoreboard_ties n sa sb = n - sa - sb"

section \<open>The comparison engine\<close>

text \<open>
  The function \<open>compare\<close> that produces a ComparisonResult runs in the backend, which is
  not among the sources; only its result type (types/stock.ts) and the components that
  display it are. It is modelled here from the specification (sections 3 and 4.2).
\<close>

text \<open>Modelled from the spec: the winner of a metric, one of \<open>a\<close>, \<open>b\<close>, \<open>tie\<close>
  (the backend's \<open>compare\<close> is missing).\<close>

datatype winner = A | B | Tie

text \<open>Modelled from the spec: the categorical values of the risk and dividend metrics, with
  the rank that orders them (Low above Moderate above High; consistent above irregular
  above none).\<close>

datatype risk_level = LowRisk | ModerateRisk | HighRisk

datatype dividend_record = ConsistentDividends | IrregularDividends | NoneDividends

fun risk_rank :: "risk_level \<Rightarrow> nat" where
  "risk_rank LowRisk = 2"
| "risk_rank ModerateRisk = 1"
| "risk_rank HighRisk = 0"

fun dividend_rank :: "dividend_record \<Rightarrow> nat" where
  "dividend_rank ConsistentDividends = 2"
| "dividend_rank IrregularDividends = 1"
| "dividend_rank NoneDividends = 0"

text \<open>Modelled from the spec: the part of a CompanyRecord that the seven metrics read. Every
  numeric field may be absent.\<close>

record CompanyRecord =
  cr_name :: string
  cr_symbol :: string
  cr_pe_ratio :: "real option"
  cr_ratio_years :: "(string \<times> real option \<times> real option) list"
  cr_year_change_percent :: "real option"
  cr_free_float_percent :: "real option"

datatype metric_value = NumVal real | RiskVal risk_level | DividendVal dividend_record

text \<open>Modelled from the spec: a ComparisonMetric, without its display strings and its
  description and explanation texts.\<close>

record ComparisonMetric =
  cm_label :: string
  value_a :: "metric_value option"
  value_b :: "metric_value option"
  winner :: winner

text \<open>Modelled from the spec: a ComparisonResult, without the verdict text.\<close>

record ComparisonResult =
  metrics :: "ComparisonMetric list"
  score_a :: int
  score_b :: int

text \<open>Modelled from the spec: the per-metric resolution of section 4.2. Both values absent
  is a tie; with exactly one absent the present side wins; with both present equal values
  tie and otherwise the better side wins.\<close>

definition resolve :: "('v \<Rightarrow> 'v \<Rightarrow> bool) \<Rightarrow> 'v option \<Rightarrow> 'v option \<Rightarrow> winner" where
  "resolve better va vb =
     (case va of
        None \<Rightarrow> (case vb of None \<Rightarrow> Tie | Some y \<Rightarrow> B)
      | Some x \<Rightarrow>
          (case vb of
             None \<Rightarrow> A
           | Some y \<Rightarrow> if x = y then Tie else if better x y then A else B))"

text \<open>Modelled from the spec: the field each metric reads. A price/earnings ratio that is
  absent or at most 0 counts as absent; margin and EPS growth come from the latest ratio
  year.\<close>

definition pe_value :: "CompanyRecord \<Rightarrow> real option" where
  "pe_value r =
     (case cr_pe_ratio r of None \<Rightarrow> None | Some p \<Rightarrow> if p \<le> 0 then None else Some p)"

definition latest_margin :: "CompanyRecord \<Rightarrow> real option" where
  "latest_margin r =
     (case cr_ratio_years r of [] \<Rightarrow> None | y # ys \<Rightarrow> fst (snd (last (y # ys))))"

definition latest_eps_growth :: "CompanyRecord \<Rightarrow> real option" where
  "latest_eps_growth r =
     (case cr_ratio_years r of [] \<Rightarrow> None | y # ys \<Rightarrow> snd (snd (last (y # ys))))"

definition numeric_metric ::
  "string \<Rightarrow> (real \<Rightarrow> real \<Rightarrow> bool) \<Rightarrow> real option \<Rightarrow> real option \<Rightarrow> ComparisonMetric" where
  "numeric_metric l better va vb =
     \<lparr>cm_label = l, value_a = map_option NumVal va, value_b = map_option NumVal vb,
      winner = resolve better va vb\<rparr>"

text \<open>Modelled from the spec: \<open>compare\<close>, the seven metrics in their fixed order and the two
  scores, each the number of metrics its side wins. The spec leaves the rules that derive a
  record's risk level and dividend track record open; they are the parameters \<open>risk_of\<close>
  and \<open>dividends_of\<close>.\<close>

definition compare_metrics ::
  "(CompanyRecord \<Rightarrow> risk_level option) \<Rightarrow> (CompanyRecord \<Rightarrow> dividend_record option)
     \<Rightarrow> CompanyRecord \<Rightarrow> CompanyRecord \<Rightarrow> ComparisonMetric list" where
  "compare_metrics risk_of dividends_of a b =
     [ numeric_metric ''Price/earnings ratio'' (\<lambda>x y. x < y) (pe_value a) (pe_value b),
       numeric_metric ''Net profit margin'' (\<lambda>x y. x > y) (latest_margin a) (latest_margin b),
       numeric_metric ''EPS growth'' (\<lambda>x y. x > y) (latest_eps_growth a) (latest_eps_growth b),
       numeric_metric ''One-year price change'' (\<lambda>x y. x > y)
         (cr_year_change_percent a) (cr_year_change_percent b),
       numeric_metric ''Free float'' (\<lambda>x y. x > y)
         (cr_free_float_percent a) (cr_free_float_percent b),
       \<lparr>cm_label = ''Risk level'',
        value_a = map_option RiskVal (risk_of a), value_b = map_option RiskVal (risk_of b),
        winner = resolve (\<lambda>x y. risk_rank x > risk_rank y) (risk_of a) (risk_of b)\<rparr>,
       \<lparr>cm_label = ''Dividend track record'',
        value_a = map_option DividendVal (dividends_of a),
        value_b = map_option DividendVal (dividends_of b),
        winner = resolve (\<lambda>x y. dividend_rank x > dividend_rank y)
                   (dividends_of a) (dividends_of b)\<rparr> ]"

definition compare ::
  "(CompanyRecord \<Rightarrow> risk_level option) \<Rightarrow> (CompanyRecord \<Rightarrow> dividend_record option)
     \<Rightarrow> CompanyRecord \<Rightarrow> CompanyRecord \<Rightarrow> ComparisonResult" where
  "compare risk_of dividends_of a b =
     (let ms = compare_metrics risk_of dividends_of a b
      in \<lparr>metrics = ms,
          score_a = int (length (filter (\<lambda>m. winner m = A) ms)),
          score_b = int (length (filter (\<lambda>m. winner m = B) ms))\<rparr>)"

section \<open>Properties of the string helpers\<close>

lemma toLowerChar_idem: "toLowerChar (toLowerChar c) = toLowerChar c"
  by (auto simp: toLowerChar_def isUpperChar_def)

lemma sameLetter_lower: "sameLetter c d \<Longrightarrow> toLowerChar c = toLowerChar d"
  by (auto simp: sameLetter_def toLowerChar_idem)

lemma casingVariant_toLowerCase: "casingVariant s t \<Longrightarrow> toLowerCase s = toLowerCase t"
  unfolding casingVariant_def toLowerCase_def
  by (induction s t rule: list_all2_induct) (auto dest: sameLetter_lower)

lemma startsWith_includes: "startsWith s t \<Longrightarrow> includes_str s t"
  by (cases s) (auto elim: startsWith.elims)

lemma startsWith_append_includes: "startsWith s (a @ t) \<Longrightarrow> includes_str s t"
proof (induction a arbitrary: s)
  case Nil
  then show ?case by (simp add: startsWith_includes)
next
  case (Cons x a)
  then obtain s' where s: "s = x # s'" and sw: "startsWith s' (a @ t)"
    by (cases s) auto
  from Cons.IH [OF sw] show ?case by (simp add: s)
qed

lemma includes_suffix: "includes_str s (a @ t) \<Longrightarrow> includes_str s t"
proof (induction s)
  case Nil
  then show ?case by simp
next
  case (Cons c s)
  then show ?case using startsWith_append_includes [of "c # s" a t] by auto
qed

lemma includes_irregular_regular: "includes_str s ''irregular'' \<Longrightarrow> includes_str s ''regular''"
  using includes_suffix [of s "''ir''" "''regular''"] by simp

section \<open>Dividend track record badge\<close>

text \<open>
  Every text that contains \<open>irregular\<close> also contains \<open>regular\<close>, so the first test of
  \<^verbatim>\<open>rateDividends\<close> already answers and its second branch is never taken.
\<close>

lemma rateDividends_never_Irregular: "label (rateDividends numToString v) \<noteq> ''Irregular''"
  by (auto simp: rateDividends_def Let_def dest: includes_irregular_regular)

text \<open>
  Claim C3 says that the dividend track record \<open>irregular\<close> is rated Irregular, distinct from
  Consistent and No Dividends. On the input \<open>irregular\<close> \<^verbatim>\<open>rateDividends\<close> returns the
  Consistent rating in green: the claim fails on the code there.
\<close>

theorem C3_irregular_rated_Consistent:
  "rateDividends numToString (Str ''irregular'') = \<lparr>label = ''Consistent'', color = Green\<rparr>"
  by (simp add: rateDividends_def String_js_def toLowerCase_def toLowerChar_def isUpperChar_def)

section \<open>Price/earnings rating\<close>

text \<open>The bands of the single-stock rating and of the comparison badge, each on its own.\<close>

lemma getPERating_bands:
  "getPERating None = \<lparr>pe_label = ''N/A'', pe_color = ''#404E3F'', pe_bgColor = ''#E5E0D9''\<rparr>"
  "pe \<le> 0 \<Longrightarrow> pe_label (getPERating (Some (Finite pe))) = ''N/A''"
  "0 < pe \<Longrightarrow> pe < 15 \<Longrightarrow> pe_label (getPERating (Some (Finite pe))) = ''Looks Cheap''"
  "15 \<le> pe \<Longrightarrow> pe \<le> 25 \<Longrightarrow> pe_label (getPERating (Some (Finite pe))) = ''Fair Price''"
  "25 < pe \<Longrightarrow> pe_label (getPERating (Some (Finite pe))) = ''Expensive''"
  by (simp_all add: getPERating_def)

lemma pe_badge_bands:
  "rateValue (METRIC_CONFIG numToString ! 0) Null = \<lparr>label = ''N/A'', color = Yellow\<rparr>"
  "pe < 15 \<Longrightarrow> rateValue (METRIC_CONFIG numToString ! 0) (Num (Finite pe))
      = \<lparr>label = ''Looks Cheap'', color = Green\<rparr>"
  "15 \<le> pe \<Longrightarrow> pe \<le> 25 \<Longrightarrow> rateValue (METRIC_CONFIG numToString ! 0) (Num (Finite pe))
      = \<lparr>label = ''Fair Price'', color = Yellow\<rparr>"
  "25 < pe \<Longrightarrow> rateValue (METRIC_CONFIG numToString ! 0) (Num (Finite pe))
      = \<lparr>label = ''Expensive'', color = Red\<rparr>"
  by (simp_all add: METRIC_CONFIG_def rateNumeric_def parseFloat_def js_ge_def)

lemma pe_views_agree_when_positive:
  "0 < pe \<Longrightarrow>
     label (rateValue (METRIC_CONFIG numToString ! 0) (Num (Finite pe)))
       = pe_label (getPERating (Some (Finite pe)))"
  by (simp add: METRIC_CONFIG_def rateNumeric_def getPERating_def js_ge_def)

text \<open>
  Claim C1 says that a price/earnings value that is absent or at most 0 is rated N/A in the
  single-stock health rating and in the comparison badge alike. At the values -5 and 0 the
  health rating \<^verbatim>\<open>getPERating\<close> answers N/A while the comparison badge
  (\<^verbatim>\<open>METRIC_CONFIG[0].rateValue\<close>) answers Looks Cheap in green: the two views differ.
\<close>

theorem C1_nonpositive_pe_rated_cheap:
  "pe_label (getPERating (Some (Finite (- 5)))) = ''N/A''
   \<and> rateValue (METRIC_CONFIG numToString ! 0) (Num (Finite (- 5)))
       = \<lparr>label = ''Looks Cheap'', color = Green\<rparr>
   \<and> pe_label (getPERating (Some (Finite 0))) = ''N/A''
   \<and> rateValue (METRIC_CONFIG numToString ! 0) (Num (Finite 0))
       = \<lparr>label = ''Looks Cheap'', color = Green\<rparr>"
  by (simp add: getPERating_def METRIC_CONFIG_def rateNumeric_def)

section \<open>Net profit margin and EPS growth\<close>

text \<open>
  Claim C5: for every present net profit margin \<open>m\<close> (the margin of the latest ratio year),
  \<open>m \<ge> 15\<close> is healthy, \<open>5 \<le> m < 15\<close> is average and \<open>m < 5\<close> is low, in the single-stock
  health check and in the comparison badge alike.
\<close>

theorem C5_margin_bands:
  assumes "ratios \<noteq> []" and "net_profit_margin (last ratios) = Some (Finite m)"
  shows "(15 \<le> m \<longrightarrow>
            HealthCheck_margin ratios = Some (''#4BC232'',
              ''Healthy margins -- the company keeps a good chunk of its revenue as profit.'')
            \<and> rateValue (METRIC_CONFIG numToString ! 1) (Num (Finite m))
                = \<lparr>label = ''Healthy'', color = Green\<rparr>)
       \<and> (5 \<le> m \<and> m < 15 \<longrightarrow>
            HealthCheck_margin ratios = Some (''#d97706'',
              ''Average margins -- the company is profitable but could do better.'')
            \<and> rateValue (METRIC_CONFIG numToString ! 1) (Num (Finite m))
                = \<lparr>label = ''Average'', color = Yellow\<rparr>)
       \<and> (m < 5 \<longrightarrow>
            HealthCheck_margin ratios = Some (''#ef4444'',
              ''Low margins -- the company keeps very little profit from its revenue.'')
            \<and> rateValue (METRIC_CONFIG numToString ! 1) (Num (Finite m))
                = \<lparr>label = ''Low'', color = Red\<rparr>)"
  using assms
  by (simp add: HealthCheck_margin_def latestRatio_def marginColor_def marginText_def
        METRIC_CONFIG_def rateNumeric_def js_ge_def)

theorem C5_margin_bands_witness:
  "HealthCheck_margin
       [\<lparr>year = ''2024'', net_profit_margin = Some (Finite 15), eps_growth = None, peg = None\<rparr>]
     = Some (''#4BC232'',
         ''Healthy margins -- the company keeps a good chunk of its revenue as profit.'')
   \<and> rateValue (METRIC_CONFIG (\<lambda>n. '''') ! 1) (Num (Finite 15))
       = \<lparr>label = ''Healthy'', color = Green\<rparr>
   \<and> HealthCheck_margin
       [\<lparr>year = ''2024'', net_profit_margin = Some (Finite 5), eps_growth = None, peg = None\<rparr>]
     = Some (''#d97706'', ''Average margins -- the company is profitable but could do better.'')
   \<and> rateValue (METRIC_CONFIG (\<lambda>n. '''') ! 1) (Num (Finite 5))
       = \<lparr>label = ''Average'', color = Yellow\<rparr>
   \<and> HealthCheck_margin
       [\<lparr>year = ''2024'', net_profit_margin = Some (Finite 4.99), eps_growth = None, peg = None\<rparr>]
     = Some (''#ef4444'',
         ''Low margins -- the company keeps very little profit from its revenue.'')
   \<and> rateValue (METRIC_CONFIG (\<lambda>n. '''') ! 1) (Num (Finite 4.99))
       = \<lparr>label = ''Low'', color = Red\<rparr>"
  using
    C5_margin_bands [of "[\<lparr>year = ''2024'', net_profit_margin = Some (Finite 15),
                            eps_growth = None, peg = None\<rparr>]" 15 "\<lambda>n. ''''"]
    C5_margin_bands [of "[\<lparr>year = ''2024'', net_profit_margin = Some (Finite 5),
                            eps_growth = None, peg = None\<rparr>]" 5 "\<lambda>n. ''''"]
    C5_margin_bands [of "[\<lparr>year = ''2024'', net_profit_margin = Some (Finite 4.99),
                            eps_growth = None, peg = None\<rparr>]" "4.99" "\<lambda>n. ''''"]
  by simp

text \<open>
  Claim C6: for every present EPS growth \<open>g\<close> (the growth of the latest ratio year),
  \<open>g \<ge> 10\<close> is strong growth, \<open>0 \<le> g < 10\<close> is stable and \<open>g < 0\<close> is declining, in the
  single-stock health check and in the comparison badge alike.
\<close>

theorem C6_eps_growth_bands:
  assumes "ratios \<noteq> []" and "eps_growth (last ratios) = Some (Finite g)"
  shows "(10 \<le> g \<longrightarrow>
            HealthCheck_epsGrowth ratios = Some (''Strong growth! The company'' @ [CHR 0x27]
              @ ''s per-share profit is increasing nicely.'')
            \<and> rateValue (METRIC_CONFIG numToString ! 2) (Num (Finite g))
                = \<lparr>label = ''Strong Growth'', color = Green\<rparr>)
       \<and> (0 \<le> g \<and> g < 10 \<longrightarrow>
            HealthCheck_epsGrowth ratios
              = Some ''Moderate growth -- per-share profit is stable or slowly rising.''
            \<and> rateValue (METRIC_CONFIG numToString ! 2) (Num (Finite g))
                = \<lparr>label = ''Stable'', color = Yellow\<rparr>)
       \<and> (g < 0 \<longrightarrow>
            HealthCheck_epsGrowth ratios
              = Some ''Per-share profit is shrinking. This needs watching.''
            \<and> rateValue (METRIC_CONFIG numToString ! 2) (Num (Finite g))
                = \<lparr>label = ''Declining'', color = Red\<rparr>)"
  using assms
  by (simp add: HealthCheck_epsGrowth_def latestRatio_def epsGrowthText_def
        METRIC_CONFIG_def rateNumeric_def js_ge_def)

theorem C6_eps_growth_bands_witness:
  "HealthCheck_epsGrowth
       [\<lparr>year = ''2024'', net_profit_margin = None, eps_growth = Some (Finite 10), peg = None\<rparr>]
     = Some (''Strong growth! The company'' @ [CHR 0x27]
              @ ''s per-share profit is increasing nicely.'')
   \<and> rateValue (METRIC_CONFIG (\<lambda>n. '''') ! 2) (Num (Finite 10))
       = \<lparr>label = ''Strong Growth'', color = Green\<rparr>
   \<and> HealthCheck_epsGrowth
       [\<lparr>year = ''2024'', net_profit_margin = None, eps_growth = Some (Finite 0), peg = None\<rparr>]
     = Some ''Moderate growth -- per-share profit is stable or slowly rising.''
   \<and> rateValue (METRIC_CONFIG (\<lambda>n. '''') ! 2) (Num (Finite 0))
       = \<lparr>label = ''Stable'', color = Yellow\<rparr>
   \<and> HealthCheck_epsGrowth
       [\<lparr>year = ''2024'', net_profit_margin = None, eps_growth = Some (Finite (- 3)), peg = None\<rparr>]
     = Some ''Per-share profit is shrinking. This needs watching.''
   \<and> rateValue (METRIC_CONFIG (\<lambda>n. '''') ! 2) (Num (Finite (- 3)))
       = \<lparr>label = ''Declining'', color = Red\<rparr>"
  using
    C6_eps_growth_bands [of "[\<lparr>year = ''2024'', net_profit_margin = None,
                            eps_growth = Some (Finite 10), peg = None\<rparr>]" 10 "\<lambda>n. ''''"]
    C6_eps_growth_bands [of "[\<lparr>year = ''2024'', net_profit_margin = None,
                            eps_growth = Some (Finite 0), peg = None\<rparr>]" 0 "\<lambda>n. ''''"]
    C6_eps_growth_bands [of "[\<lparr>year = ''2024'', net_profit_margin = None,
                            eps_growth = Some (Finite (- 3)), peg = None\<rparr>]" "- 3" "\<lambda>n. ''''"]
  by simp

section \<open>Risk level\<close>

lemma rateRisk_lower:
  "toLowerCase s = toLowerCase t \<Longrightarrow> rateRisk numToString (Str s) = rateRisk numToString (Str t)"
  by (simp add: rateRisk_def String_js_def)

lemma getRiskConfig_lower:
  "toLowerCase s = toLowerCase t \<Longrightarrow> getRiskConfig s = getRiskConfig t"
  by (simp add: getRiskConfig_def)

lemma lower_Low: "toLowerCase ''Low'' = ''low''" by code_simp
lemma lower_Moderate: "toLowerCase ''Moderate'' = ''moderate''" by code_simp
lemma lower_High: "toLowerCase ''High'' = ''high''" by code_simp

text \<open>
  Claim C7: risk classification is case-insensitive. Both risk raters give a string \<open>s\<close> and
  every letter-casing variant \<open>s'\<close> of it the same rating, and \<open>Low\<close>, \<open>Moderate\<close> and
  \<open>High\<close> in any casing are rated Low Risk, Medium Risk and High Risk by both.
\<close>

theorem C7_risk_case_insensitive:
  "(casingVariant s s' \<longrightarrow>
      rateRisk numToString (Str s') = rateRisk numToString (Str s)
      \<and> getRiskConfig s' = getRiskConfig s)
   \<and> (casingVariant ''Low'' s \<longrightarrow>
        rateRisk numToString (Str s) = \<lparr>label = ''Low Risk'', color = Green\<rparr>
        \<and> risk_label (getRiskConfig s) = ''Low Risk'')
   \<and> (casingVariant ''Moderate'' s \<longrightarrow>
        rateRisk numToString (Str s) = \<lparr>label = ''Medium Risk'', color = Yellow\<rparr>
        \<and> risk_label (getRiskConfig s) = ''Medium Risk'')
   \<and> (casingVariant ''High'' s \<longrightarrow>
        rateRisk numToString (Str s) = \<lparr>label = ''High Risk'', color = Red\<rparr>
        \<and> risk_label (getRiskConfig s) = ''High Risk'')"
proof (intro conjI impI)
  assume "casingVariant s s'"
  then have "toLowerCase s' = toLowerCase s"
    by (simp add: casingVariant_toLowerCase)
  then show "rateRisk numToString (Str s') = rateRisk numToString (Str s)"
    and "getRiskConfig s' = getRiskConfig s"
    by (rule rateRisk_lower, rule getRiskConfig_lower)
next
  assume "casingVariant ''Low'' s"
  then have "toLowerCase ''Low'' = toLowerCase s"
    by (rule casingVariant_toLowerCase)
  then have l: "toLowerCase s = ''low''"
    unfolding lower_Low by (rule sym)
  show "rateRisk numToString (Str s) = \<lparr>label = ''Low Risk'', color = Green\<rparr>"
    by (simp add: rateRisk_def String_js_def l)
  show "risk_label (getRiskConfig s) = ''Low Risk''"
    by (simp add: getRiskConfig_def l)
next
  assume "casingVariant ''Moderate'' s"
  then have "toLowerCase ''Moderate'' = toLowerCase s"
    by (rule casingVariant_toLowerCase)
  then have l: "toLowerCase s = ''moderate''"
    unfolding lower_Moderate by (rule sym)
  show "rateRisk numToString (Str s) = \<lparr>label = ''Medium Risk'', color = Yellow\<rparr>"
    by (simp add: rateRisk_def String_js_def l)
  show "risk_label (getRiskConfig s) = ''Medium Risk''"
    by (simp add: getRiskConfig_def l)
next
  assume "casingVariant ''High'' s"
  then have "toLowerCase ''High'' = toLowerCase s"
    by (rule casingVariant_toLowerCase)
  then have l: "toLowerCase s = ''high''"
    unfolding lower_High by (rule sym)
  show "rateRisk numToString (Str s) = \<lparr>label = ''High Risk'', color = Red\<rparr>"
    by (simp add: rateRisk_def String_js_def l)
  show "risk_label (getRiskConfig s) = ''High Risk''"
    by (simp add: getRiskConfig_def l)
qed

theorem C7_risk_case_insensitive_witness:
  "casingVariant ''LOW'' ''low''
   \<and> rateRisk (\<lambda>n. []) (Str ''low'') = rateRisk (\<lambda>n. []) (Str ''LOW'')
   \<and> getRiskConfig ''low'' = getRiskConfig ''LOW''
   \<and> casingVariant ''Low'' ''LOW''
   \<and> rateRisk (\<lambda>n. []) (Str ''LOW'') = \<lparr>label = ''Low Risk'', color = Green\<rparr>
   \<and> risk_label (getRiskConfig ''LOW'') = ''Low Risk''
   \<and> casingVariant ''Moderate'' ''mOdErAtE''
   \<and> rateRisk (\<lambda>n. []) (Str ''mOdErAtE'') = \<lparr>label = ''Medium Risk'', color = Yellow\<rparr>
   \<and> risk_label (getRiskConfig ''mOdErAtE'') = ''Medium Risk''
   \<and> casingVariant ''High'' ''hIGH''
   \<and> rateRisk (\<lambda>n. []) (Str ''hIGH'') = \<lparr>label = ''High Risk'', color = Red\<rparr>
   \<and> risk_label (getRiskConfig ''hIGH'') = ''High Risk''"
proof -
  have v1: "casingVariant ''LOW'' ''low''" by code_simp
  have v2: "casingVariant ''Low'' ''LOW''" by code_simp
  have v3: "casingVariant ''Moderate'' ''mOdErAtE''" by code_simp
  have v4: "casingVariant ''High'' ''hIGH''" by code_simp
  show ?thesis
    using v1 v2 v3 v4
      C7_risk_case_insensitive [of "''LOW''" "''low''" "\<lambda>n. []"]
      C7_risk_case_insensitive [of "''mOdErAtE''" "''MODERATE''" "\<lambda>n. []"]
      C7_risk_case_insensitive [of "''hIGH''" "''High''" "\<lambda>n. []"]
    by blast
qed

section \<open>Absent figures in the trend badges\<close>

text \<open>
  \<^verbatim>\<open>MoneyTalk\<close> cannot tell an absent income from an income of 0: replacing every absent
  figure by 0 changes neither the series nor the trend.
\<close>

lemma incomes_absent_as_zero:
  "incomes (map (\<lambda>f. f\<lparr>total_income := Some (orZero (total_income f))\<rparr>) fs) = incomes fs"
  by (simp add: incomes_def orZero_def)

lemma isGrowingIncome_absent_as_zero:
  "isGrowingIncome (map (\<lambda>f. f\<lparr>total_income := Some (orZero (total_income f))\<rparr>) fs)
     = isGrowingIncome fs"
  unfolding isGrowingIncome_def incomes_absent_as_zero ..

text \<open>
  Claim C2 says that a classification never takes an absent value for zero, and that the
  Growing/Declining trend over the financial periods leaves out the periods whose value is
  absent. For an income of 100 in 2023 and no income figure for 2024, \<^verbatim>\<open>MoneyTalk\<close> builds
  the series 100, 0 and shows Declining, while \<^verbatim>\<open>CompareTrendBadge\<close> drops the absent
  entry and, with one known value left, shows no badge: the claim fails on \<^verbatim>\<open>MoneyTalk\<close>.
\<close>

theorem C2_absent_income_counted_as_zero:
  "incomes [\<lparr>period = ''2023'', sales = None, total_income = Some (Finite 100),
              profit_after_tax = None, eps = None\<rparr>,
            \<lparr>period = ''2024'', sales = None, total_income = None,
              profit_after_tax = None, eps = None\<rparr>] = [Finite 100, Finite 0]
   \<and> TrendBadge (isGrowingIncome
         [\<lparr>period = ''2023'', sales = None, total_income = Some (Finite 100),
            profit_after_tax = None, eps = None\<rparr>,
          \<lparr>period = ''2024'', sales = None, total_income = None,
            profit_after_tax = None, eps = None\<rparr>]) = ''Declining''
   \<and> CompareTrendBadge [Some (Finite 100), None] = None"
  by (simp add: incomes_def orZero_def isGrowingIncome_def TrendBadge_def js_gt_def
        CompareTrendBadge_def nonNull_def)

section \<open>Scores of a comparison\<close>

lemma winner_partition:
  "length (filter (\<lambda>m. winner m = A) ms) + length (filter (\<lambda>m. winner m = B) ms)
     + length (filter (\<lambda>m. winner m = Tie) ms) = length ms"
proof (induction ms)
  case Nil
  then show ?case by simp
next
  case (Cons m ms)
  then show ?case by (cases "winner m") simp_all
qed

lemma length_compare_metrics: "length (compare_metrics risk_of dividends_of a b) = 7"
  by (simp add: compare_metrics_def)

lemma QuickVerdict_total_7: "QuickVerdict_total sa sb = 7"
  by (simp add: QuickVerdict_total_def)

lemma VisualScoreboard_ties_count:
  "VisualScoreboard_ties
       (int (length (metrics (compare risk_of dividends_of a b))))
       (score_a (compare risk_of dividends_of a b))
       (score_b (compare risk_of dividends_of a b))
     = int (length (filter (\<lambda>m. winner m = Tie)
              (metrics (compare risk_of dividends_of a b))))"
  using winner_partition [of "compare_metrics risk_of dividends_of a b"]
  by (simp add: VisualScoreboard_ties_def compare_def Let_def)

text \<open>
  Claim C4: for every ComparisonResult that \<open>compare\<close> produces, both scores are
  non-negative, their sum is at most 7, and 7 minus both scores is the number of metrics
  whose winner is tie (the result has seven metrics).
\<close>

theorem C4_scores_and_ties:
  "0 \<le> score_a (compare risk_of dividends_of a b)
   \<and> 0 \<le> score_b (compare risk_of dividends_of a b)
   \<and> score_a (compare risk_of dividends_of a b) + score_b (compare risk_of dividends_of a b) \<le> 7
   \<and> 7 - score_a (compare risk_of dividends_of a b) - score_b (compare risk_of dividends_of a b)
       = int (length (filter (\<lambda>m. winner m = Tie)
                (metrics (compare risk_of dividends_of a b))))
   \<and> length (metrics (compare risk_of dividends_of a b)) = 7"
  using winner_partition [of "compare_metrics risk_of dividends_of a b"]
  by (simp add: compare_def Let_def length_compare_metrics)

section \<open>Properties of rounding to a double\<close>

text \<open>Powers of two, and the binade \<open>exponent\<close> finds: \<open>2^e \<le> a < 2^(e+1)\<close>, or \<open>a\<close> below
  \<open>2^-1022\<close> with the exponent \<open>-1022\<close>.\<close>

lemma pow2_powi: "pow2 e = 2 powi e"
  by (simp add: pow2_def power_int_def inverse_eq_divide power_one_over)

lemma pow2_pos [simp]: "0 < pow2 e"
  by (simp add: pow2_powi)

lemma pow2_add: "pow2 (a + b) = pow2 a * pow2 b"
  by (simp add: pow2_powi power_int_add)

lemma pow2_mono: "a \<le> b \<Longrightarrow> pow2 a \<le> pow2 b"
  by (simp add: pow2_powi power_int_increasing)

lemma pow2_strict: "a < b \<Longrightarrow> pow2 a < pow2 b"
  by (simp add: pow2_powi power_int_strict_increasing)

lemma pow2_0 [simp]: "pow2 0 = 1"
  by (simp add: pow2_def)

lemma pow2_numeral: "pow2 (numeral n) = 2 ^ numeral n"
  by (simp add: pow2_def)

lemma pow2_1 [simp]: "pow2 1 = 2"
  by (simp add: pow2_def)

lemma pow2_Suc: "pow2 (e + 1) = 2 * pow2 e" "pow2 (1 + e) = 2 * pow2 e"
  by (simp_all add: pow2_add)

lemma pow2_Suc2: "pow2 (e + 2) = 4 * pow2 e" "pow2 (2 + e) = 4 * pow2 e"
  by (simp_all add: pow2_add pow2_numeral)

lemma pow2_nonneg_int: "0 \<le> e \<Longrightarrow> pow2 e = of_int (2 ^ nat e)"
  by (simp add: pow2_def)

lemma expoUp_spec:
  "1 \<le> x \<Longrightarrow> 0 \<le> expoUp x \<and> pow2 (expoUp x) \<le> x \<and> x < pow2 (expoUp x + 1)"
proof (induction x rule: expoUp.induct)
  case (1 x)
  show ?case
  proof (cases "x < 2")
    case True
    then have "expoUp x = 0" by (subst expoUp.simps) simp
    with True 1(2) show ?thesis by (simp add: pow2_Suc)
  next
    case False
    then have e: "expoUp x = expoUp (x / 2) + 1" by (subst expoUp.simps) simp
    from False have "1 \<le> x / 2" by simp
    from 1(1) [OF False this]
    have "0 \<le> expoUp (x / 2)" "pow2 (expoUp (x / 2)) \<le> x / 2"
      "x / 2 < pow2 (expoUp (x / 2) + 1)" by simp_all
    then show ?thesis unfolding e by (simp add: pow2_Suc pow2_Suc2)
  qed
qed

lemma expoDown_spec:
  "x < 2 \<Longrightarrow>
     - int n \<le> expoDown n x \<and> expoDown n x \<le> 0 \<and> x < pow2 (expoDown n x + 1)
     \<and> (- int n < expoDown n x \<longrightarrow> pow2 (expoDown n x) \<le> x)"
proof (induction n arbitrary: x)
  case 0
  then show ?case by (simp add: pow2_Suc)
next
  case (Suc n)
  show ?case
  proof (cases "1 \<le> x")
    case True
    with Suc.prems show ?thesis by (simp add: pow2_Suc)
  next
    case False
    then have "2 * x < 2" by simp
    from Suc.IH [OF this] have ih: "- int n \<le> expoDown n (2 * x)" "expoDown n (2 * x) \<le> 0"
      "2 * x < pow2 (expoDown n (2 * x) + 1)"
      "- int n < expoDown n (2 * x) \<longrightarrow> pow2 (expoDown n (2 * x)) \<le> 2 * x" by simp_all
    have e: "expoDown (Suc n) x = expoDown n (2 * x) - 1" using False by simp
    have p: "pow2 (expoDown n (2 * x)) = 2 * pow2 (expoDown n (2 * x) - 1)"
      using pow2_Suc [of "expoDown n (2 * x) - 1"] by simp
    show ?thesis unfolding e using ih p by (auto simp: pow2_Suc)
  qed
qed

lemma exponent_spec:
  assumes "0 \<le> a"
  shows "- 1022 \<le> exponent a" and "a < pow2 (exponent a + 1)"
    and "- 1022 < exponent a \<Longrightarrow> pow2 (exponent a) \<le> a"
proof -
  have "- 1022 \<le> exponent a \<and> a < pow2 (exponent a + 1)
      \<and> (- 1022 < exponent a \<longrightarrow> pow2 (exponent a) \<le> a)"
  proof (cases "1 \<le> a")
    case True
    with expoUp_spec [OF True] show ?thesis by (simp add: exponent_def)
  next
    case False
    then have "a < 2" by simp
    from expoDown_spec [OF this, of 1022] False show ?thesis by (simp add: exponent_def)
  qed
  then show "- 1022 \<le> exponent a" and "a < pow2 (exponent a + 1)"
    and "- 1022 < exponent a \<Longrightarrow> pow2 (exponent a) \<le> a" by simp_all
qed

lemma exponent_mono:
  assumes "0 \<le> a" and "a \<le> b"
  shows "exponent a \<le> exponent b"
proof (rule ccontr)
  assume "\<not> exponent a \<le> exponent b"
  then have lt: "exponent b < exponent a" by simp
  from assms have b0: "0 \<le> b" by simp
  from lt exponent_spec(1) [OF b0] have "- 1022 < exponent a" by simp
  from exponent_spec(3) [OF assms(1) this] have "pow2 (exponent a) \<le> a" .
  also note assms(2)
  also note exponent_spec(2) [OF b0]
  also have "pow2 (exponent b + 1) \<le> pow2 (exponent a)"
    using lt by (intro pow2_mono) simp
  finally show False by simp
qed

lemma exponent_eqI:
  assumes "0 \<le> a" and "- 1022 \<le> e" and "a < pow2 (e + 1)"
    and "- 1022 < e \<Longrightarrow> pow2 e \<le> a"
  shows "exponent a = e"
proof (rule antisym)
  show "exponent a \<le> e"
  proof (rule ccontr)
    assume "\<not> exponent a \<le> e"
    then have lt: "e < exponent a" by simp
    with assms(2) have "- 1022 < exponent a" by simp
    from exponent_spec(3) [OF assms(1) this] have "pow2 (exponent a) \<le> a" .
    also note assms(3)
    also have "pow2 (e + 1) \<le> pow2 (exponent a)" using lt by (intro pow2_mono) simp
    finally show False by simp
  qed
  show "e \<le> exponent a"
  proof (rule ccontr)
    assume "\<not> e \<le> exponent a"
    then have lt: "exponent a < e" by simp
    with exponent_spec(1) [OF assms(1)] have "- 1022 < e" by simp
    from assms(4) [OF this] have "pow2 e \<le> a" .
    also note exponent_spec(2) [OF assms(1)]
    also have "pow2 (exponent a + 1) \<le> pow2 e" using lt by (intro pow2_mono) simp
    finally show False by simp
  qed
qed

text \<open>Rounding to the nearest integer is monotone and leaves integers alone.\<close>

lemma rhe_of_int [simp]: "roundHalfEven (of_int k) = k"
  by (simp add: roundHalfEven_def)

lemma rhe_bounds: "\<lfloor>y\<rfloor> \<le> roundHalfEven y" "roundHalfEven y \<le> \<lfloor>y\<rfloor> + 1"
  by (simp_all add: roundHalfEven_def Let_def)

lemma rhe_mono:
  assumes "y \<le> z"
  shows "roundHalfEven y \<le> roundHalfEven z"
proof (cases "\<lfloor>y\<rfloor> = \<lfloor>z\<rfloor>")
  case True
  with assms show ?thesis by (auto simp: roundHalfEven_def Let_def)
next
  case False
  with assms have "\<lfloor>y\<rfloor> + 1 \<le> \<lfloor>z\<rfloor>" using floor_mono [OF assms] by simp
  with rhe_bounds(2) [of y] rhe_bounds(1) [of z] show ?thesis by simp
qed

lemma ulp_pos [simp]: "0 < ulp a"
  by (simp add: ulp_def)

lemma ulp_nonneg [simp]: "0 \<le> ulp a"
  by (simp add: less_imp_le)

lemma ulp_neq0 [simp]: "ulp a \<noteq> 0"
  by (metis ulp_pos less_irrefl)

lemma roundMagnitude_nonneg: "0 \<le> a \<Longrightarrow> 0 \<le> roundMagnitude a"
proof -
  assume "0 \<le> a"
  then have "0 \<le> a / ulp a" by (simp add: less_imp_le)
  from rhe_mono [OF this] have "0 \<le> roundHalfEven (a / ulp a)"
    using rhe_of_int [of 0] by simp
  then show ?thesis by (simp add: roundMagnitude_def)
qed

lemma roundMagnitude_exact:
  assumes "a / ulp a = of_int k"
  shows "roundMagnitude a = a"
proof -
  have "roundMagnitude a = of_int k * ulp a"
    by (simp add: roundMagnitude_def assms)
  also have "\<dots> = a / ulp a * ulp a" by (simp add: assms)
  also have "\<dots> = a" using ulp_pos [of a] by (simp add: less_imp_neq)
  finally show ?thesis .
qed

text \<open>Rounding to a grid cannot cross a point of the grid.\<close>

lemma roundMagnitude_le_grid:
  assumes "a \<le> of_int k * ulp a"
  shows "roundMagnitude a \<le> of_int k * ulp a"
proof -
  from assms have "a / ulp a \<le> of_int k" by (simp add: pos_divide_le_eq)
  from rhe_mono [OF this] have "roundHalfEven (a / ulp a) \<le> k" by simp
  then have "(of_int (roundHalfEven (a / ulp a)) :: real) \<le> of_int k" by simp
  then show ?thesis unfolding roundMagnitude_def by (simp add: mult_right_mono)
qed

lemma roundMagnitude_ge_grid:
  assumes "of_int k * ulp a \<le> a"
  shows "of_int k * ulp a \<le> roundMagnitude a"
proof -
  from assms have "of_int k \<le> a / ulp a" by (simp add: pos_le_divide_eq)
  from rhe_mono [OF this] have "k \<le> roundHalfEven (a / ulp a)" by simp
  then have "(of_int k :: real) \<le> of_int (roundHalfEven (a / ulp a))" by simp
  then show ?thesis unfolding roundMagnitude_def by (simp add: mult_right_mono)
qed

text \<open>The ends of a binade are points of its grid, so rounding is monotone across
  binades as well.\<close>

lemma binade_top: "pow2 (exponent a + 1) = of_int (2 ^ 53) * ulp a"
proof -
  have "53 + (exponent a - 52) = exponent a + 1" by simp
  with pow2_add [of 53 "exponent a - 52"]
  have "pow2 (exponent a + 1) = pow2 53 * pow2 (exponent a - 52)" by simp
  then show ?thesis by (simp add: ulp_def pow2_numeral)
qed

lemma binade_bottom: "pow2 (exponent a) = of_int (2 ^ 52) * ulp a"
proof -
  have "52 + (exponent a - 52) = exponent a" by simp
  with pow2_add [of 52 "exponent a - 52"]
  have "pow2 (exponent a) = pow2 52 * pow2 (exponent a - 52)" by simp
  then show ?thesis by (simp add: ulp_def pow2_numeral)
qed

lemma roundMagnitude_le_top:
  assumes "0 \<le> a"
  shows "roundMagnitude a \<le> pow2 (exponent a + 1)"
  unfolding binade_top
  by (rule roundMagnitude_le_grid) (use exponent_spec(2) [OF assms] binade_top in simp)

lemma roundMagnitude_ge_bottom:
  assumes "0 \<le> a" and "- 1022 < exponent a"
  shows "pow2 (exponent a) \<le> roundMagnitude a"
  unfolding binade_bottom
  by (rule roundMagnitude_ge_grid) (use exponent_spec(3) [OF assms] binade_bottom in simp)

lemma roundMagnitude_mono:
  assumes "0 \<le> a" and "a \<le> b"
  shows "roundMagnitude a \<le> roundMagnitude b"
proof (cases "exponent a = exponent b")
  case True
  then have u: "ulp a = ulp b" by (simp add: ulp_def)
  from assms(2) have "a / ulp b \<le> b / ulp b" by (simp add: divide_right_mono less_imp_le)
  from rhe_mono [OF this]
  have "(of_int (roundHalfEven (a / ulp b)) :: real) \<le> of_int (roundHalfEven (b / ulp b))"
    by simp
  then show ?thesis unfolding roundMagnitude_def u by (simp add: mult_right_mono)
next
  case False
  with exponent_mono [OF assms] have lt: "exponent a < exponent b" by simp
  from assms have b0: "0 \<le> b" by simp
  from lt exponent_spec(1) [OF assms(1)] have "- 1022 < exponent b" by simp
  from roundMagnitude_ge_bottom [OF b0 this] have "pow2 (exponent b) \<le> roundMagnitude b" .
  moreover have "pow2 (exponent a + 1) \<le> pow2 (exponent b)"
    using lt by (intro pow2_mono) simp
  moreover note roundMagnitude_le_top [OF assms(1)]
  ultimately show ?thesis by simp
qed

text \<open>
  \<open>toDouble\<close> never gives NaN, is monotone, and is exact on the integers below \<open>2^53\<close> and
  on the powers of two of the double range.
\<close>

lemma toDouble_not_NaN [simp]: "toDouble x \<noteq> NaN"
  by (simp add: toDouble_def Let_def)

lemma toDouble_mono:
  assumes "x \<le> y"
  shows "js_le (toDouble x) (toDouble y)"
proof -
  have rx: "0 \<le> roundMagnitude \<bar>x\<bar>" and ry: "0 \<le> roundMagnitude \<bar>y\<bar>"
    by (simp_all add: roundMagnitude_nonneg)
  consider "0 \<le> x" | "x < 0" "0 \<le> y" | "y < 0" using assms by linarith
  then show ?thesis
  proof cases
    case 1
    with assms have "roundMagnitude \<bar>x\<bar> \<le> roundMagnitude \<bar>y\<bar>"
      by (intro roundMagnitude_mono) simp_all
    with 1 assms show ?thesis by (simp add: toDouble_def Let_def)
  next
    case 2
    with rx ry show ?thesis by (simp add: toDouble_def Let_def)
  next
    case 3
    with assms have "roundMagnitude \<bar>y\<bar> \<le> roundMagnitude \<bar>x\<bar>"
      by (intro roundMagnitude_mono) simp_all
    with 3 assms show ?thesis by (simp add: toDouble_def Let_def)
  qed
qed

lemma toDouble_exactI:
  assumes "\<bar>x\<bar> / ulp \<bar>x\<bar> = of_int k" and "\<bar>x\<bar> < 2 ^ 1024"
  shows "toDouble x = Finite x"
proof -
  from roundMagnitude_exact [OF assms(1)] have "roundMagnitude \<bar>x\<bar> = \<bar>x\<bar>" .
  with assms(2) show ?thesis by (simp add: toDouble_def Let_def)
qed

lemma exponent_le_52:
  assumes "0 \<le> a" and "a < 2 ^ 53"
  shows "exponent a \<le> 52"
proof (rule ccontr)
  assume "\<not> exponent a \<le> 52"
  then have ge: "53 \<le> exponent a" by simp
  then have "- 1022 < exponent a" by simp
  from exponent_spec(3) [OF assms(1) this] have "pow2 (exponent a) \<le> a" .
  moreover have "pow2 53 \<le> pow2 (exponent a)" using ge by (rule pow2_mono)
  ultimately show False using assms(2) by (simp add: pow2_numeral)
qed

lemma toDouble_of_int:
  assumes "\<bar>k\<bar> < 2 ^ 53"
  shows "toDouble (of_int k) = Finite (of_int k)"
proof -
  define a :: real where "a = \<bar>of_int k\<bar>"
  have a0: "0 \<le> a" by (simp add: a_def)
  have ak: "a = of_int \<bar>k\<bar>" by (simp add: a_def)
  from assms have a53: "a < 2 ^ 53" unfolding ak
    by (metis of_int_less_iff of_int_numeral of_int_power)
  from exponent_le_52 [OF a0 a53] have "exponent a - 52 \<le> 0" by simp
  then have u: "ulp a = 1 / 2 ^ nat (52 - exponent a)"
    by (auto simp: ulp_def pow2_def)
  have "a / ulp a = a * 2 ^ nat (52 - exponent a)"
    by (simp add: u)
  also have "\<dots> = of_int (\<bar>k\<bar> * 2 ^ nat (52 - exponent a))"
    by (simp add: ak)
  finally have "a / ulp a = of_int (\<bar>k\<bar> * 2 ^ nat (52 - exponent a))" .
  moreover have "a < 2 ^ 1024" using a53
    by (rule less_le_trans) (simp add: power_increasing)
  ultimately show ?thesis unfolding a_def by (rule toDouble_exactI)
qed

lemma toDouble_0 [simp]: "toDouble 0 = Finite 0"
  using toDouble_of_int [of 0] by simp

lemma toDouble_1 [simp]: "toDouble 1 = Finite 1"
  using toDouble_of_int [of 1] by simp

lemma toDouble_numeral:
  "(numeral n :: int) < 2 ^ 53 \<Longrightarrow> toDouble (numeral n) = Finite (numeral n)"
  using toDouble_of_int [of "numeral n"] by simp

lemma toDouble_neg_numeral:
  "(numeral n :: int) < 2 ^ 53 \<Longrightarrow> toDouble (- numeral n) = Finite (- numeral n)"
  using toDouble_of_int [of "- numeral n"] by simp

lemma toDouble_of_nat:
  "n < 2 ^ 53 \<Longrightarrow> toDouble (real n) = Finite (real n)"
  using toDouble_of_int [of "int n"] by simp

lemma toDouble_between:
  assumes "toDouble lo = Finite l'" and "toDouble hi = Finite h'"
    and "lo \<le> x" and "x \<le> hi"
  shows "\<exists>r. toDouble x = Finite r \<and> l' \<le> r \<and> r \<le> h'"
proof -
  from toDouble_mono [OF assms(3)] assms(1) have l: "js_le (Finite l') (toDouble x)" by simp
  from toDouble_mono [OF assms(4)] assms(2) have h: "js_le (toDouble x) (Finite h')" by simp
  from l h show ?thesis by (cases "toDouble x") simp_all
qed

text \<open>Every double is a whole multiple of \<open>2^-1074\<close>, so the difference of two distinct
  doubles does not round to zero.\<close>

lemma double_grid:
  assumes "toDouble x = Finite r"
  shows "\<exists>k::int. r = of_int k * pow2 (- 1074)"
proof -
  define a where "a = \<bar>x\<bar>"
  define j where "j = roundHalfEven (a / ulp a)"
  have a0: "0 \<le> a" by (simp add: a_def)
  from exponent_spec(1) [OF a0] have ge: "0 \<le> exponent a + 1022" by simp
  have "exponent a - 52 = (exponent a + 1022) + (- 1074)" by simp
  then have "ulp a = pow2 (exponent a + 1022) * pow2 (- 1074)"
    unfolding ulp_def by (simp only: pow2_add)
  also have "pow2 (exponent a + 1022) = of_int (2 ^ nat (exponent a + 1022))"
    using ge by (rule pow2_nonneg_int)
  finally have u: "ulp a = of_int (2 ^ nat (exponent a + 1022)) * pow2 (- 1074)" .
  have rm: "roundMagnitude a = of_int (j * 2 ^ nat (exponent a + 1022)) * pow2 (- 1074)"
    unfolding roundMagnitude_def j_def [symmetric] by (subst u) simp
  from assms have "r = roundMagnitude a \<or> r = - roundMagnitude a"
    by (auto simp: toDouble_def Let_def a_def split: if_splits)
  then show ?thesis
  proof
    assume "r = roundMagnitude a"
    with rm show ?thesis by blast
  next
    assume "r = - roundMagnitude a"
    with rm have "r = of_int (- (j * 2 ^ nat (exponent a + 1022))) * pow2 (- 1074)" by simp
    then show ?thesis by blast
  qed
qed

lemma toDouble_smallest: "toDouble (pow2 (- 1074)) = Finite (pow2 (- 1074))"
proof -
  define g where "g = pow2 (- 1074)"
  have g0: "0 \<le> g" by (simp add: g_def less_imp_le)
  have "g < pow2 (- 1022 + 1)" unfolding g_def by (rule pow2_strict) simp
  then have "exponent g = - 1022"
    by (intro exponent_eqI g0) simp_all
  then have u: "ulp g = g" by (simp add: ulp_def g_def)
  have "g \<noteq> 0" by (simp add: g_def less_imp_neq [THEN not_sym])
  then have "\<bar>g\<bar> / ulp \<bar>g\<bar> = of_int 1" using g0 u by simp
  moreover have "\<bar>g\<bar> < 2 ^ 1024"
  proof -
    have "g < pow2 0" unfolding g_def by (rule pow2_strict) simp
    then show ?thesis using g0 by (simp add: less_le_trans [OF _ one_le_power])
  qed
  ultimately show ?thesis unfolding g_def [symmetric] by (rule toDouble_exactI)
qed

lemma toDouble_diff_pos:
  assumes "isDouble a" and "isDouble b" and "a < b"
  shows "js_lt (Finite 0) (toDouble (b - a))"
proof -
  define g where "g = pow2 (- 1074)"
  have gpos: "0 < g" by (simp add: g_def)
  from assms(1) obtain ka :: int where ka: "a = of_int ka * g"
    unfolding isDouble_def g_def using double_grid by blast
  from assms(2) obtain kb :: int where kb: "b = of_int kb * g"
    unfolding isDouble_def g_def using double_grid by blast
  from assms(3) have "of_int ka * g < of_int kb * g" by (simp add: ka kb)
  with gpos have "ka < kb" by (simp add: mult_less_cancel_right)
  then have "1 \<le> kb - ka" by simp
  then have "(1::real) \<le> of_int (kb - ka)" by (metis of_int_1_le_iff)
  then have "1 * g \<le> of_int (kb - ka) * g" using gpos by (simp add: mult_right_mono)
  then have "g \<le> b - a" by (simp add: ka kb algebra_simps)
  from toDouble_mono [OF this] have "js_le (Finite g) (toDouble (b - a))"
    by (simp add: g_def toDouble_smallest)
  with gpos show ?thesis by (cases "toDouble (b - a)") simp_all
qed

text \<open>From \<open>2^1024\<close> on the result is \<open>Infinity\<close>.\<close>

lemma toDouble_overflow:
  assumes "2 ^ 1024 \<le> x"
  shows "toDouble x = PosInf"
proof -
  from assms have x0: "0 \<le> x" by (rule order_trans [rotated]) simp
  have "pow2 1024 \<le> x" using assms by (simp add: pow2_numeral)
  also note exponent_spec(2) [OF x0]
  finally have "pow2 1024 < pow2 (exponent x + 1)" .
  then have ge: "1024 \<le> exponent x"
    using pow2_mono [of "exponent x + 1" 1024] by (cases "1024 \<le> exponent x") auto
  then have "- 1022 < exponent x" by simp
  from roundMagnitude_ge_bottom [OF x0 this] have "pow2 (exponent x) \<le> roundMagnitude x" .
  moreover from ge have "pow2 1024 \<le> pow2 (exponent x)" by (rule pow2_mono)
  ultimately have "2 ^ 1024 \<le> roundMagnitude x" by (simp add: pow2_numeral)
  with x0 show ?thesis by (simp add: toDouble_def Let_def)
qed

lemma toDouble_pow2:
  assumes "- 1022 \<le> e" and "e \<le> 1023"
  shows "toDouble (pow2 e) = Finite (pow2 e)"
proof -
  have p0: "0 \<le> pow2 e" by (simp add: less_imp_le)
  have ex: "exponent (pow2 e) = e"
    using assms(1) by (intro exponent_eqI p0) (simp_all add: pow2_strict)
  define q where "q = pow2 (e - 52)"
  have qpos: "0 < q" by (simp add: q_def)
  have u: "ulp (pow2 e) = q" by (simp add: ulp_def ex q_def)
  have "52 + (e - 52) = e" by simp
  with pow2_add [of 52 "e - 52"] have "pow2 e = pow2 52 * q" by (simp add: q_def)
  then have "pow2 e / q = of_int (2 ^ 52)"
    using qpos by (simp add: pow2_numeral)
  then have "\<bar>pow2 e\<bar> / ulp \<bar>pow2 e\<bar> = of_int (2 ^ 52)"
    using p0 by (simp add: u)
  moreover have "\<bar>pow2 e\<bar> < 2 ^ 1024"
  proof -
    have "pow2 e < pow2 1024" using assms(2) by (intro pow2_strict) simp
    then show ?thesis using p0 by (simp add: pow2_numeral)
  qed
  ultimately show ?thesis by (rule toDouble_exactI)
qed

lemma isDouble_neg: "isDouble a \<Longrightarrow> isDouble (- a)"
  by (auto simp: isDouble_def toDouble_def Let_def split: if_splits)

lemma isDouble_2_1023: "isDouble (2 ^ 1023)" "isDouble (- (2 ^ 1023))"
proof -
  have "toDouble (pow2 1023) = Finite (pow2 1023)"
    by (rule toDouble_pow2) simp_all
  then show "isDouble (2 ^ 1023)"
    unfolding isDouble_def by (simp only: pow2_numeral)
  then show "isDouble (- (2 ^ 1023))" by (rule isDouble_neg)
qed

text \<open>
  \<open>toDouble\<close> computed from the binade of its argument, and two computations as JavaScript
  does them: 23 / 40 * 100 is 57.49999999999999 and rounds to 57.
\<close>

lemma pow2_neg_numeral: "pow2 (- numeral n) = 1 / 2 ^ numeral n"
  by (simp add: pow2_def)

lemma toDouble_binade:
  assumes "- 1022 \<le> e" and "pow2 e \<le> a" and "a < pow2 (e + 1)"
    and "of_int (roundHalfEven (a / pow2 (e - 52))) * pow2 (e - 52) < 2 ^ 1024"
  shows "toDouble a = Finite (of_int (roundHalfEven (a / pow2 (e - 52))) * pow2 (e - 52))"
proof -
  have a: "0 < a" by (rule less_le_trans [OF pow2_pos assms(2)])
  then have "exponent a = e"
    using assms(1-3) by (intro exponent_eqI) simp_all
  with a assms(4) show ?thesis
    by (simp add: toDouble_def Let_def roundMagnitude_def ulp_def)
qed

lemma toDouble_minus: "toDouble (- x) = js_neg (toDouble x)"
proof (cases "x = 0")
  case True
  then show ?thesis by simp
next
  case False
  then show ?thesis by (auto simp: toDouble_def Let_def)
qed

lemma rounding_example:
  "js_div (Finite 23) (Finite 40) = Finite (2589569785738035 / 2 ^ 52)"
  "js_mul (js_div (Finite 23) (Finite 40)) (Finite 100) = Finite (8092405580431359 / 2 ^ 47)"
  "Math_round (js_mul (js_div (Finite 23) (Finite 40)) (Finite 100)) = Finite 57"
proof -
  have d: "toDouble (23 / 40) = Finite (2589569785738035 / 2 ^ 52)"
    using toDouble_binade [of "- 1" "23 / 40"]
    by (simp add: pow2_neg_numeral pow2_def roundHalfEven_def)
  have m: "toDouble (64739244643450875 / 1125899906842624) = Finite (8092405580431359 / 2 ^ 47)"
    using toDouble_binade [of 5 "64739244643450875 / 1125899906842624"]
    by (simp add: pow2_neg_numeral pow2_numeral roundHalfEven_def)
  show "js_div (Finite 23) (Finite 40) = Finite (2589569785738035 / 2 ^ 52)"
    by (simp add: d)
  show "js_mul (js_div (Finite 23) (Finite 40)) (Finite 100)
      = Finite (8092405580431359 / 2 ^ 47)"
    by (simp add: d m)
  show "Math_round (js_mul (js_div (Finite 23) (Finite 40)) (Finite 100)) = Finite 57"
    by (simp add: d m)
qed

section \<open>Absent values in the numeric badges\<close>

text \<open>\<^verbatim>\<open>parseFloat\<close> gives NaN exactly on the texts that are not numeric.\<close>

lemma parseUnsigned_NaN_iff: "parseUnsigned r = NaN \<longleftrightarrow> \<not> startsNumeral r"
proof (cases "startsWith r ''Infinity''")
  case True
  then show ?thesis by (simp add: parseUnsigned_def startsNumeral_def)
next
  case False
  show ?thesis
  proof (cases r)
    case Nil
    then show ?thesis by (simp add: parseUnsigned_def startsNumeral_def)
  next
    case (Cons c r1)
    show ?thesis
    proof (cases "isDigit c")
      case True
      with False Cons show ?thesis by (simp add: parseUnsigned_def startsNumeral_def Let_def)
    next
      case nd: False
      show ?thesis
      proof (cases "c = CHR ''.''")
        case dot: True
        show ?thesis
        proof (cases r1)
          case Nil
          with False Cons nd dot show ?thesis
            by (simp add: parseUnsigned_def startsNumeral_def Let_def)
        next
          case (Cons d r2)
          with False \<open>r = c # r1\<close> nd dot show ?thesis
            by (simp add: parseUnsigned_def startsNumeral_def Let_def)
        qed
      next
        case False
        with \<open>\<not> startsWith r ''Infinity''\<close> Cons nd show ?thesis
          by (simp add: parseUnsigned_def startsNumeral_def Let_def)
      qed
    qed
  qed
qed

lemma js_neg_NaN_iff [simp]: "js_neg x = NaN \<longleftrightarrow> x = NaN"
  by (cases x) simp_all

lemma parseFloat_NaN_iff: "parseFloat s = NaN \<longleftrightarrow> nonNumericText s"
proof (cases "dropWhile isWhiteSpace s")
  case Nil
  show ?thesis unfolding parseFloat_def nonNumericText_def Nil by simp
next
  case (Cons c r)
  show ?thesis unfolding parseFloat_def nonNumericText_def Cons
    by (simp add: parseUnsigned_NaN_iff)
qed

lemma parseFloat_empty: "parseFloat [] = NaN"
  by (simp add: parseFloat_def)

text \<open>
  Claim C8: a value that is \<^verbatim>\<open>null\<close> or not numeric (the number NaN, or a string that after
  white space and an optional sign starts with no decimal literal) is rated N/A in yellow by
  \<^verbatim>\<open>rateNumeric\<close> whatever the thresholds, and so by each of the five numeric metrics (P/E,
  net profit margin, EPS growth, one-year price change, free float): never green, never red.
\<close>

theorem C8_absent_value_rated_NA:
  assumes "v = Null \<or> v = Num NaN \<or> (\<exists>s. v = Str s \<and> nonNumericText s)"
  shows "rateNumeric v goodBelow goodAbove fairBelow fairAbove labels
           = \<lparr>label = ''N/A'', color = Yellow\<rparr>
       \<and> (\<forall>i < 5. rateValue (METRIC_CONFIG numToString ! i) v
                    = \<lparr>label = ''N/A'', color = Yellow\<rparr>)"
proof -
  have na: "rateNumeric v gb ga fb fa ls = \<lparr>label = ''N/A'', color = Yellow\<rparr>"
    for gb ga fb fa ls
  proof -
    from assms consider "v = Null" | "v = Num NaN" | s where "v = Str s" "nonNumericText s"
      by blast
    then show ?thesis
    proof cases
      case 1
      then show ?thesis by (simp add: rateNumeric_def parseFloat_empty)
    next
      case 2
      then show ?thesis by (simp add: rateNumeric_def)
    next
      case 3
      then have "parseFloat s = NaN" by (simp add: parseFloat_NaN_iff)
      with 3 show ?thesis by (simp add: rateNumeric_def)
    qed
  qed
  have "rateValue (METRIC_CONFIG numToString ! i) v = \<lparr>label = ''N/A'', color = Yellow\<rparr>"
    if "i < 5" for i
  proof -
    from that consider "i = 0" | "i = 1" | "i = 2" | "i = 3" | "i = 4" by linarith
    then show ?thesis by cases (simp_all add: METRIC_CONFIG_def na)
  qed
  with na show ?thesis by blast
qed

text \<open>
  \<open>N/A\<close> is not numeric. A numeral after a no-break space is numeric and is rated by its
  value, and a literal with more digits than a double holds is rounded.
\<close>

lemma nonNumeric_NA: "nonNumericText ''N/A''"
  by (simp add: nonNumericText_def startsNumeral_def isWhiteSpace_def isDigit_def)

lemma nbsp_numeral_is_numeric:
  "\<not> nonNumericText [CHR 0xA0, CHR ''1'', CHR ''2'']"
  "parseFloat [CHR 0xA0, CHR ''1'', CHR ''2''] = Finite 12"
  "rateValue (METRIC_CONFIG numToString ! 0) (Str [CHR 0xA0, CHR ''1'', CHR ''2''])
     = \<lparr>label = ''Looks Cheap'', color = Green\<rparr>"
proof -
  show "\<not> nonNumericText [CHR 0xA0, CHR ''1'', CHR ''2'']"
    by (simp add: nonNumericText_def startsNumeral_def isWhiteSpace_def isDigit_def)
  show p: "parseFloat [CHR 0xA0, CHR ''1'', CHR ''2''] = Finite 12"
    by (simp add: parseFloat_def parseUnsigned_def isWhiteSpace_def isDigit_def digitsVal_def
          digitVal_def exponentPart_def scale10_def toDouble_numeral)
  show "rateValue (METRIC_CONFIG numToString ! 0) (Str [CHR 0xA0, CHR ''1'', CHR ''2''])
     = \<lparr>label = ''Looks Cheap'', color = Green\<rparr>"
    by (simp add: METRIC_CONFIG_def rateNumeric_def p)
qed

theorem C8_absent_value_rated_NA_witness:
  "rateNumeric Null (Some (Finite 15)) None (Some (Finite 15)) (Some (Finite 25))
       (''Looks Cheap'', ''Fair Price'', ''Expensive'') = \<lparr>label = ''N/A'', color = Yellow\<rparr>
   \<and> rateValue (METRIC_CONFIG (\<lambda>n. []) ! 0) Null = \<lparr>label = ''N/A'', color = Yellow\<rparr>
   \<and> rateValue (METRIC_CONFIG (\<lambda>n. []) ! 4) Null = \<lparr>label = ''N/A'', color = Yellow\<rparr>
   \<and> nonNumericText ''N/A''
   \<and> rateValue (METRIC_CONFIG (\<lambda>n. []) ! 1) (Str ''N/A'') = \<lparr>label = ''N/A'', color = Yellow\<rparr>"
proof -
  have p: "nonNumericText ''N/A''"
    by (simp add: nonNumericText_def startsNumeral_def isWhiteSpace_def isDigit_def)
  show ?thesis
    using p
      C8_absent_value_rated_NA [of Null "Some (Finite 15)" None "Some (Finite 15)"
        "Some (Finite 25)" "(''Looks Cheap'', ''Fair Price'', ''Expensive'')" "\<lambda>n. []"]
      C8_absent_value_rated_NA [of "Str ''N/A''" "Some (Finite 15)" None "Some (Finite 15)"
        "Some (Finite 25)" "(''Looks Cheap'', ''Fair Price'', ''Expensive'')" "\<lambda>n. []"]
    by simp
qed

lemma parseFloat_rounds_example: "parseFloat ''14.99999999999999999999'' = Finite 15"
proof -
  have "toDouble (1499999999999999999999 / 100000000000000000000) = Finite 15"
    using toDouble_binade [of 3 "1499999999999999999999 / 100000000000000000000"]
    by (simp add: pow2_neg_numeral pow2_numeral roundHalfEven_def)
  then show ?thesis
    by (simp add: parseFloat_def parseUnsigned_def isWhiteSpace_def isDigit_def digitsVal_def
          digitVal_def exponentPart_def scale10_def)
qed

section \<open>Position in the 52-week range\<close>

lemma isDouble_0 [simp]: "isDouble 0"
  by (simp add: isDouble_def)

lemma orZero_double:
  "doubleOrAbsent x \<Longrightarrow> \<exists>r. orZero x = Finite r \<and> isDouble r"
  by (cases x rule: doubleOrAbsent.cases) (simp_all add: orZero_def)

lemma js_sub_Finite: "js_sub (Finite a) (Finite b) = toDouble (a - b)"
  by (simp add: js_sub_def)

lemma js_sub_self_not_positive: "\<not> js_gt (js_sub x x) (Finite 0)"
  by (cases x) (simp_all add: js_sub_def js_gt_def)

lemma js_div_not_NaN: "a \<noteq> NaN \<Longrightarrow> r \<noteq> 0 \<Longrightarrow> js_div a (Finite r) \<noteq> NaN"
  by (cases a) simp_all

lemma js_mul_not_NaN: "a \<noteq> NaN \<Longrightarrow> r \<noteq> 0 \<Longrightarrow> js_mul a (Finite r) \<noteq> NaN"
  by (cases a) simp_all

lemma clamp_not_NaN:
  "x \<noteq> NaN \<Longrightarrow>
     \<exists>m. Math_min (Math_max x (Finite 2)) (Finite 98) = Finite m \<and> 2 \<le> m \<and> m \<le> 98"
  by (cases x) (simp_all add: Math_min_def Math_max_def)

lemma rangePercent_not_NaN:
  assumes c: "orZero (current price) = Finite c"
    and h: "orZero (week52_high price) = Finite h" and hd: "isDouble h"
    and l: "orZero (week52_low price) = Finite l" and lpos: "0 < l"
  shows "rangePercent price \<noteq> NaN"
proof (cases "js_gt (js_sub (Finite h) (Finite l)) (Finite 0)")
  case False
  then show ?thesis by (simp add: rangePercent_def Let_def c h l)
next
  case True
  from lpos have "h - l \<le> h" by simp
  from toDouble_mono [OF this] hd have "js_le (toDouble (h - l)) (Finite h)"
    by (simp add: isDouble_def)
  with True obtain r where r: "toDouble (h - l) = Finite r" and rpos: "0 < r"
    by (cases "toDouble (h - l)") (simp_all add: js_sub_Finite js_gt_def)
  have "js_sub (Finite c) (Finite l) \<noteq> NaN" by (simp add: js_sub_Finite)
  then have "js_div (js_sub (Finite c) (Finite l)) (Finite r) \<noteq> NaN"
    using rpos by (intro js_div_not_NaN) simp_all
  then have "js_mul (js_div (js_sub (Finite c) (Finite l)) (Finite r)) (Finite 100) \<noteq> NaN"
    by (intro js_mul_not_NaN) simp_all
  moreover have "rangePercent price
      = js_mul (js_div (js_sub (Finite c) (Finite l)) (Finite r)) (Finite 100)"
    using True by (simp add: rangePercent_def Let_def c h l js_sub_Finite r)
  ultimately show ?thesis by simp
qed

text \<open>
  Claim C9: the 52-week range position is defined for all price inputs. When the 52-week
  high equals the low the position is 50, and so it is whenever the range is not greater
  than 0: no division by a zero range takes place. For prices that are absent or finite
  doubles, the position shown in the rendered block is a number (never NaN) and the marker
  lies between 2 and 98 percent.
\<close>

theorem C9_range_position:
  "(orZero (week52_high price) = orZero (week52_low price)
      \<longrightarrow> rangePercent price = Finite 50)
   \<and> (\<not> js_gt (js_sub (orZero (week52_high price)) (orZero (week52_low price))) (Finite 0)
        \<longrightarrow> rangePercent price = Finite 50)
   \<and> (doubleOrAbsent (current price) \<and> doubleOrAbsent (week52_high price)
        \<and> doubleOrAbsent (week52_low price)
        \<longrightarrow> (\<forall>m. markerLeft price = Some m \<longrightarrow> rangePercent price \<noteq> NaN
                  \<and> (\<exists>x. m = Finite x \<and> 2 \<le> x \<and> x \<le> 98)))"
proof (intro conjI impI allI)
  assume "orZero (week52_high price) = orZero (week52_low price)"
  then show "rangePercent price = Finite 50"
    using js_sub_self_not_positive [of "orZero (week52_low price)"]
    by (simp add: rangePercent_def Let_def)
next
  assume "\<not> js_gt (js_sub (orZero (week52_high price)) (orZero (week52_low price))) (Finite 0)"
  then show "rangePercent price = Finite 50"
    by (simp add: rangePercent_def Let_def)
next
  fix m
  assume d: "doubleOrAbsent (current price) \<and> doubleOrAbsent (week52_high price)
        \<and> doubleOrAbsent (week52_low price)"
    and mk: "markerLeft price = Some m"
  from d obtain c where c: "orZero (current price) = Finite c"
    using orZero_double by blast
  from d obtain h where h: "orZero (week52_high price) = Finite h" and hd: "isDouble h"
    using orZero_double by blast
  from d obtain l where l: "orZero (week52_low price) = Finite l"
    using orZero_double by blast
  from mk have lpos: "0 < l"
    by (simp add: markerLeft_def l js_gt_def split: if_splits)
  show nn: "rangePercent price \<noteq> NaN"
    by (rule rangePercent_not_NaN [OF c h hd l lpos])
  from mk have "m = Math_min (Math_max (rangePercent price) (Finite 2)) (Finite 98)"
    by (simp add: markerLeft_def split: if_splits)
  with clamp_not_NaN [OF nn] show "\<exists>x. m = Finite x \<and> 2 \<le> x \<and> x \<le> 98"
    by simp
qed

theorem C9_range_position_witness:
  "rangePercent \<lparr>current = Some (Finite 150), change = None, week52_high = Some (Finite 100),
                 week52_low = Some (Finite 100), pe_ratio = None\<rparr> = Finite 50
   \<and> markerLeft \<lparr>current = Some (Finite 150), change = None, week52_high = Some (Finite 100),
                 week52_low = Some (Finite 100), pe_ratio = None\<rparr> = Some (Finite 50)
   \<and> doubleOrAbsent (Some (Finite 400)) \<and> doubleOrAbsent (Some (Finite 200))
   \<and> doubleOrAbsent (Some (Finite 100))
   \<and> markerLeft \<lparr>current = Some (Finite 400), change = None, week52_high = Some (Finite 200),
                 week52_low = Some (Finite 100), pe_ratio = None\<rparr> = Some (Finite 98)
   \<and> rangePercent \<lparr>current = Some (Finite 400), change = None, week52_high = Some (Finite 200),
                 week52_low = Some (Finite 100), pe_ratio = None\<rparr> \<noteq> NaN"
proof -
  let ?p = "\<lparr>current = Some (Finite 150), change = None, week52_high = Some (Finite 100),
              week52_low = Some (Finite 100), pe_ratio = None\<rparr>"
  let ?q = "\<lparr>current = Some (Finite 400), change = None, week52_high = Some (Finite 200),
              week52_low = Some (Finite 100), pe_ratio = None\<rparr>"
  have dbl: "doubleOrAbsent (Some (Finite 400))" "doubleOrAbsent (Some (Finite 200))"
    "doubleOrAbsent (Some (Finite 100))"
    by (simp_all add: isDouble_def toDouble_numeral)
  have rq: "rangePercent ?q = Finite 300"
    by (simp add: rangePercent_def orZero_def js_sub_Finite js_gt_def toDouble_numeral)
  have mq: "markerLeft ?q = Some (Finite 98)"
    by (simp add: markerLeft_def rq orZero_def js_gt_def Math_min_def Math_max_def)
  from C9_range_position [of ?p] have rp: "rangePercent ?p = Finite 50"
    by (simp add: orZero_def)
  have mp: "markerLeft ?p = Some (Finite 50)"
    by (simp add: markerLeft_def rp orZero_def js_gt_def Math_min_def Math_max_def)
  from C9_range_position [of ?q] dbl mq have "rangePercent ?q \<noteq> NaN"
    by simp
  with rp mp dbl mq show ?thesis by simp
qed

text \<open>The position itself may leave the finite numbers: for a current price far below
  the low the subtraction overflows, the position is \<open>-Infinity\<close> and the marker sits at 2.\<close>

lemma rangePercent_overflow_example:
  "rangePercent \<lparr>current = Some (Finite (- (2 ^ 1023))), change = None,
                 week52_high = Some (Finite (3 * 2 ^ 1022)),
                 week52_low = Some (Finite (2 ^ 1023)), pe_ratio = None\<rparr> = NegInf"
  "markerLeft \<lparr>current = Some (Finite (- (2 ^ 1023))), change = None,
                 week52_high = Some (Finite (3 * 2 ^ 1022)),
                 week52_low = Some (Finite (2 ^ 1023)), pe_ratio = None\<rparr> = Some (Finite 2)"
proof -
  define big :: real where "big = 2 ^ 1022"
  have pos: "0 < big" by (simp add: big_def)
  have "toDouble (pow2 1022) = Finite (pow2 1022)" by (rule toDouble_pow2) simp_all
  then have b: "toDouble big = Finite big" by (simp only: pow2_numeral big_def)
  have "2 ^ 1024 \<le> 4 * big" by (simp add: big_def)
  then have "toDouble (4 * big) = PosInf" by (rule toDouble_overflow)
  then have ov: "toDouble (- (4 * big)) = NegInf" by (simp add: toDouble_minus)
  have eq: "(2::real) ^ 1023 = 2 * big" "3 * (2::real) ^ 1022 = 3 * big"
    by (simp_all add: big_def)
  have r: "rangePercent \<lparr>current = Some (Finite (- (2 * big))), change = None,
                 week52_high = Some (Finite (3 * big)),
                 week52_low = Some (Finite (2 * big)), pe_ratio = None\<rparr> = NegInf"
    using pos ov by (simp add: rangePercent_def orZero_def js_sub_Finite js_gt_def b)
  then show "rangePercent \<lparr>current = Some (Finite (- (2 ^ 1023))), change = None,
                 week52_high = Some (Finite (3 * 2 ^ 1022)),
                 week52_low = Some (Finite (2 ^ 1023)), pe_ratio = None\<rparr> = NegInf"
    unfolding eq .
  have "markerLeft \<lparr>current = Some (Finite (- (2 * big))), change = None,
                 week52_high = Some (Finite (3 * big)),
                 week52_low = Some (Finite (2 * big)), pe_ratio = None\<rparr> = Some (Finite 2)"
    using pos by (simp add: markerLeft_def r orZero_def js_gt_def Math_min_def Math_max_def)
  then show "markerLeft \<lparr>current = Some (Finite (- (2 ^ 1023))), change = None,
                 week52_high = Some (Finite (3 * 2 ^ 1022)),
                 week52_low = Some (Finite (2 ^ 1023)), pe_ratio = None\<rparr> = Some (Finite 2)"
    unfolding eq .
qed

section \<open>The overall performance index\<close>

text \<open>The minimum and the maximum of a list of finite numbers are members of the list and
  bound it.\<close>

lemma nonNull_pair: "v \<in> set (nonNull [a, b]) \<longleftrightarrow> a = Some v \<or> b = Some v"
  by (cases a; cases b) (auto simp: nonNull_def)

lemma allVals_mem:
  "v \<in> set (concat (map (\<lambda>d. nonNull [valueA d, valueB d]) data))
     \<longleftrightarrow> (\<exists>d\<in>set data. valueA d = Some v \<or> valueB d = Some v)"
  by (simp add: nonNull_pair)

lemma doubleOrAbsent_Some: "doubleOrAbsent (Some v) \<Longrightarrow> \<exists>r. v = Finite r \<and> isDouble r"
  by (cases v) simp_all

lemma foldl_min_finite:
  "\<forall>v\<in>set xs. \<exists>r. v = Finite r \<Longrightarrow>
     \<exists>m. foldl Math_min (Finite a) xs = Finite m \<and> m \<le> a
         \<and> (\<forall>r. Finite r \<in> set xs \<longrightarrow> m \<le> r) \<and> (m = a \<or> Finite m \<in> set xs)"
proof (induction xs arbitrary: a)
  case Nil
  then show ?case by simp
next
  case (Cons x xs)
  then obtain r where x: "x = Finite r" by auto
  have step: "Math_min (Finite a) (Finite r) = Finite (min a r)"
    by (simp add: Math_min_def min_def)
  from Cons.prems have "\<forall>v\<in>set xs. \<exists>r. v = Finite r" by simp
  from Cons.IH [OF this, of "min a r"]
  obtain m where m: "foldl Math_min (Finite (min a r)) xs = Finite m"
    and le: "m \<le> min a r" and all: "\<forall>r. Finite r \<in> set xs \<longrightarrow> m \<le> r"
    and mem: "m = min a r \<or> Finite m \<in> set xs"
    by blast
  have "foldl Math_min (Finite a) (x # xs) = Finite m"
    by (simp add: x step m)
  moreover have "m \<le> a" using le by simp
  moreover have "\<forall>q. Finite q \<in> set (x # xs) \<longrightarrow> m \<le> q"
    using le all by (auto simp: x)
  moreover have "m = a \<or> Finite m \<in> set (x # xs)"
    using mem by (auto simp: x min_def split: if_splits)
  ultimately show ?case by blast
qed

lemma foldl_max_finite:
  "\<forall>v\<in>set xs. \<exists>r. v = Finite r \<Longrightarrow>
     \<exists>m. foldl Math_max (Finite a) xs = Finite m \<and> a \<le> m
         \<and> (\<forall>r. Finite r \<in> set xs \<longrightarrow> r \<le> m) \<and> (m = a \<or> Finite m \<in> set xs)"
proof (induction xs arbitrary: a)
  case Nil
  then show ?case by simp
next
  case (Cons x xs)
  then obtain r where x: "x = Finite r" by auto
  have step: "Math_max (Finite a) (Finite r) = Finite (max a r)"
    by (simp add: Math_max_def max_def)
  from Cons.prems have "\<forall>v\<in>set xs. \<exists>r. v = Finite r" by simp
  from Cons.IH [OF this, of "max a r"]
  obtain m where m: "foldl Math_max (Finite (max a r)) xs = Finite m"
    and le: "max a r \<le> m" and all: "\<forall>r. Finite r \<in> set xs \<longrightarrow> r \<le> m"
    and mem: "m = max a r \<or> Finite m \<in> set xs"
    by blast
  have "foldl Math_max (Finite a) (x # xs) = Finite m"
    by (simp add: x step m)
  moreover have "a \<le> m" using le by simp
  moreover have "\<forall>q. Finite q \<in> set (x # xs) \<longrightarrow> q \<le> m"
    using le all by (auto simp: x)
  moreover have "m = a \<or> Finite m \<in> set (x # xs)"
    using mem by (auto simp: x max_def split: if_splits)
  ultimately show ?case by blast
qed

lemma Math_min_list_finite:
  assumes "xs \<noteq> []" and "\<forall>v\<in>set xs. \<exists>r. v = Finite r"
  shows "\<exists>m. Math_min_list xs = Finite m \<and> (\<forall>r. Finite r \<in> set xs \<longrightarrow> m \<le> r)
           \<and> Finite m \<in> set xs"
proof -
  from assms obtain r ys where xs: "xs = Finite r # ys"
    by (cases xs) auto
  from assms(2) have "\<forall>v\<in>set ys. \<exists>r. v = Finite r" by (simp add: xs)
  from foldl_min_finite [OF this, of r]
  obtain m where m: "foldl Math_min (Finite r) ys = Finite m"
    and le: "m \<le> r" and all: "\<forall>q. Finite q \<in> set ys \<longrightarrow> m \<le> q"
    and mem: "m = r \<or> Finite m \<in> set ys"
    by blast
  have "Math_min_list xs = Finite m"
    by (simp add: Math_min_list_def xs Math_min_def m)
  moreover have "\<forall>q. Finite q \<in> set xs \<longrightarrow> m \<le> q"
    using le all by (auto simp: xs)
  moreover have "Finite m \<in> set xs" using mem by (auto simp: xs)
  ultimately show ?thesis by blast
qed

lemma Math_max_list_finite:
  assumes "xs \<noteq> []" and "\<forall>v\<in>set xs. \<exists>r. v = Finite r"
  shows "\<exists>m. Math_max_list xs = Finite m \<and> (\<forall>r. Finite r \<in> set xs \<longrightarrow> r \<le> m)
           \<and> Finite m \<in> set xs"
proof -
  from assms obtain r ys where xs: "xs = Finite r # ys"
    by (cases xs) auto
  from assms(2) have "\<forall>v\<in>set ys. \<exists>r. v = Finite r" by (simp add: xs)
  from foldl_max_finite [OF this, of r]
  obtain m where m: "foldl Math_max (Finite r) ys = Finite m"
    and le: "r \<le> m" and all: "\<forall>q. Finite q \<in> set ys \<longrightarrow> q \<le> m"
    and mem: "m = r \<or> Finite m \<in> set ys"
    by blast
  have "Math_max_list xs = Finite m"
    by (simp add: Math_max_list_def xs Math_max_def m)
  moreover have "\<forall>q. Finite q \<in> set xs \<longrightarrow> q \<le> m"
    using le all by (auto simp: xs)
  moreover have "Finite m \<in> set xs" using mem by (auto simp: xs)
  ultimately show ?thesis by blast
qed

text \<open>A value between the minimum and the maximum is scaled into 0 to 100 when the spread
  does not overflow; with a zero range the divisor is 1 and the result is 0.\<close>

lemma toDouble_100: "toDouble 100 = Finite 100"
  by (simp add: toDouble_numeral)

lemma normalised_in_range:
  assumes mn: "isDouble mn" and mx: "isDouble mx" and "mn \<le> v" and "v \<le> mx"
    and fin: "js_sub (Finite mx) (Finite mn) \<noteq> PosInf"
  shows "inPercentRange (js_mul (js_div (js_sub (Finite v) (Finite mn))
            (orOne (js_sub (Finite mx) (Finite mn)))) (Finite 100))"
proof (cases "mx = mn")
  case True
  with assms have "v = mn" by simp
  with True show ?thesis by (simp add: js_sub_Finite orOne_def)
next
  case False
  with assms have lt: "mn < mx" by simp
  from toDouble_diff_pos [OF mn mx lt] fin
  obtain r where r: "toDouble (mx - mn) = Finite r" and rpos: "0 < r"
    by (cases "toDouble (mx - mn)") (simp_all add: js_sub_Finite)
  from assms have "0 \<le> v - mn" "v - mn \<le> mx - mn" by simp_all
  from toDouble_between [OF toDouble_0 r this]
  obtain d where d: "toDouble (v - mn) = Finite d" and d0: "0 \<le> d" and dr: "d \<le> r"
    by blast
  from d0 dr rpos have "0 \<le> d / r" "d / r \<le> 1" by simp_all
  from toDouble_between [OF toDouble_0 toDouble_1 this]
  obtain q where q: "toDouble (d / r) = Finite q" and q0: "0 \<le> q" and q1: "q \<le> 1"
    by blast
  from q0 q1 have "0 \<le> q * 100" "q * 100 \<le> 100" by simp_all
  from toDouble_between [OF toDouble_0 toDouble_100 this]
  obtain n where n: "toDouble (q * 100) = Finite n" and "0 \<le> n" "n \<le> 100"
    by blast
  have "js_mul (js_div (js_sub (Finite v) (Finite mn))
            (orOne (js_sub (Finite mx) (Finite mn)))) (Finite 100) = Finite n"
    using rpos by (simp add: js_sub_Finite r d orOne_def q n)
  with \<open>0 \<le> n\<close> \<open>n \<le> 100\<close> show ?thesis by simp
qed

lemma normaliseSeries_in_range:
  assumes fin: "\<forall>d\<in>set data. doubleOrAbsent (valueA d) \<and> doubleOrAbsent (valueB d)"
    and nov: "\<not> spreadOverflows data"
    and d: "d \<in> set (normaliseSeries data)"
  shows "inRangeOrAbsent (valueA d) \<and> inRangeOrAbsent (valueB d)"
proof -
  define allVals where "allVals = concat (map (\<lambda>d. nonNull [valueA d, valueB d]) data)"
  have alldbl: "\<exists>r. v = Finite r \<and> isDouble r" if "v \<in> set allVals" for v
  proof -
    from that obtain e where e: "e \<in> set data" and "valueA e = Some v \<or> valueB e = Some v"
      unfolding allVals_def allVals_mem by blast
    with fin have "doubleOrAbsent (Some v)" by metis
    then show ?thesis by (rule doubleOrAbsent_Some)
  qed
  then have allfin: "\<forall>v\<in>set allVals. \<exists>r. v = Finite r" by blast
  from d have ne: "allVals \<noteq> []"
    by (auto simp: normaliseSeries_def allVals_def Let_def split: if_splits)
  from Math_min_list_finite [OF ne allfin]
  obtain mn where mn: "Math_min_list allVals = Finite mn"
    and mn_le: "\<forall>r. Finite r \<in> set allVals \<longrightarrow> mn \<le> r"
    and mn_mem: "Finite mn \<in> set allVals" by blast
  from Math_max_list_finite [OF ne allfin]
  obtain mx where mx: "Math_max_list allVals = Finite mx"
    and le_mx: "\<forall>r. Finite r \<in> set allVals \<longrightarrow> r \<le> mx"
    and mx_mem: "Finite mx \<in> set allVals" by blast
  from alldbl [OF mn_mem] have mnd: "isDouble mn" by simp
  from alldbl [OF mx_mem] have mxd: "isDouble mx" by simp
  from nov have spread: "js_sub (Finite mx) (Finite mn) \<noteq> PosInf"
    unfolding spreadOverflows_def allVals_def [symmetric] Let_def mn mx .
  define norm where
    "norm v = js_mul (js_div (js_sub v (Finite mn)) (orOne (js_sub (Finite mx) (Finite mn))))
                (Finite 100)" for v
  have ns: "normaliseSeries data =
      map (\<lambda>d. \<lparr>tdp_year = tdp_year d,
                 valueA = (case valueA d of None \<Rightarrow> None | Some v \<Rightarrow> Some (norm v)),
                 valueB = (case valueB d of None \<Rightarrow> None | Some v \<Rightarrow> Some (norm v))\<rparr>) data"
    using ne unfolding normaliseSeries_def allVals_def [symmetric] Let_def mn mx norm_def
    by simp
  have norm_ok: "inPercentRange (norm v)" if "v \<in> set allVals" for v
  proof -
    from that allfin obtain r where r: "v = Finite r" by blast
    with that mn_le le_mx have "mn \<le> r" "r \<le> mx" by auto
    then show ?thesis unfolding norm_def r
      by (intro normalised_in_range mnd mxd spread)
  qed
  from d obtain e where e: "e \<in> set data"
    and de: "d = \<lparr>tdp_year = tdp_year e,
                 valueA = (case valueA e of None \<Rightarrow> None | Some v \<Rightarrow> Some (norm v)),
                 valueB = (case valueB e of None \<Rightarrow> None | Some v \<Rightarrow> Some (norm v))\<rparr>"
    unfolding ns by auto
  have a: "inRangeOrAbsent (valueA d)"
  proof (cases "valueA e")
    case None
    then show ?thesis by (simp add: de inRangeOrAbsent_def)
  next
    case (Some v)
    with e have "v \<in> set allVals" unfolding allVals_def allVals_mem by blast
    then show ?thesis by (simp add: de Some inRangeOrAbsent_def norm_ok)
  qed
  have b: "inRangeOrAbsent (valueB d)"
  proof (cases "valueB e")
    case None
    then show ?thesis by (simp add: de inRangeOrAbsent_def)
  next
    case (Some v)
    with e have "v \<in> set allVals" unfolding allVals_def allVals_mem by blast
    then show ?thesis by (simp add: de Some inRangeOrAbsent_def norm_ok)
  qed
  from a b show ?thesis ..
qed

text \<open>The loop of \<^verbatim>\<open>buildCompositeIndex\<close> keeps each sum between 0 and 100 times its
  count; such sums are exact as long as there are at most \<open>2^32\<close> series.\<close>

lemma inPercentRange_cases: "inPercentRange v \<Longrightarrow> \<exists>r. v = Finite r \<and> 0 \<le> r \<and> r \<le> 100"
  by (cases v) simp_all

lemma toDouble_hundreds:
  assumes "n \<le> 2 ^ 32"
  shows "toDouble (100 * real n) = Finite (100 * real n)"
proof -
  from assms have "100 * n \<le> 100 * 2 ^ 32" by simp
  also have "\<dots> < (2::nat) ^ 53" by simp
  finally have "100 * n < 2 ^ 53" .
  from toDouble_of_nat [OF this] show ?thesis by simp
qed

lemma add_in_range:
  assumes "0 \<le> a" and "a \<le> 100 * real n" and "inPercentRange v" and "n < 2 ^ 32"
  shows "\<exists>s. js_add (Finite a) v = Finite s \<and> 0 \<le> s \<and> s \<le> 100 * real (n + 1)"
proof -
  from assms(3) obtain r where v: "v = Finite r" and r: "0 \<le> r" "r \<le> 100"
    using inPercentRange_cases by blast
  from assms(4) have "n + 1 \<le> 2 ^ 32" by simp
  from toDouble_hundreds [OF this]
  have hi: "toDouble (100 * real (n + 1)) = Finite (100 * real (n + 1))" .
  from assms(1,2) r have "0 \<le> a + r" "a + r \<le> 100 * real (n + 1)" by simp_all
  from toDouble_between [OF toDouble_0 hi this] show ?thesis by (simp add: v)
qed

lemma sumsInRange_iff:
  "sumsInRange m (sa, ca, sb, cb) \<longleftrightarrow>
     (\<exists>a b. sa = Finite a \<and> sb = Finite b
        \<and> 0 \<le> a \<and> a \<le> 100 * real ca \<and> ca \<le> m
        \<and> 0 \<le> b \<and> b \<le> 100 * real cb \<and> cb \<le> m)"
  by (cases sa; cases sb) (auto simp: sumsInRange_def)

lemma sumsInRange_cases:
  assumes "sumsInRange m acc"
  obtains a ca b cb where "acc = (Finite a, ca, Finite b, cb)"
    and "0 \<le> a" and "a \<le> 100 * real ca" and "ca \<le> m"
    and "0 \<le> b" and "b \<le> 100 * real cb" and "cb \<le> m"
proof -
  obtain sa ca sb cb where acc: "acc = (sa, ca, sb, cb)"
    by (cases acc) auto
  from assms show thesis
    unfolding acc sumsInRange_iff using that acc by blast
qed

lemma compositeStep_inv:
  assumes inv: "sumsInRange m acc" and m: "m < 2 ^ 32"
    and rng: "\<forall>d\<in>set series. inRangeOrAbsent (valueA d) \<and> inRangeOrAbsent (valueB d)"
  shows "sumsInRange (m + 1) (compositeStep yr acc series)"
proof -
  from inv obtain a ca b cb where acc: "acc = (Finite a, ca, Finite b, cb)"
    and a: "0 \<le> a" "a \<le> 100 * real ca" and cam: "ca \<le> m"
    and b: "0 \<le> b" "b \<le> 100 * real cb" and cbm: "cb \<le> m"
    by (rule sumsInRange_cases)
  from cam cbm m have ca32: "ca < 2 ^ 32" and cb32: "cb < 2 ^ 32" by simp_all
  define point where "point = find (\<lambda>d. tdp_year d = yr) series"
  have pa: "inPercentRange v" if "Option.bind point valueA = Some v" for v
  proof -
    from that obtain p where "point = Some p" "valueA p = Some v"
      by (cases point) auto
    then have "p \<in> set series" unfolding point_def by (auto simp: find_Some_iff)
    with rng \<open>valueA p = Some v\<close> show ?thesis by (auto simp: inRangeOrAbsent_def)
  qed
  have pb: "inPercentRange v" if "Option.bind point valueB = Some v" for v
  proof -
    from that obtain p where "point = Some p" "valueB p = Some v"
      by (cases point) auto
    then have "p \<in> set series" unfolding point_def by (auto simp: find_Some_iff)
    with rng \<open>valueB p = Some v\<close> show ?thesis by (auto simp: inRangeOrAbsent_def)
  qed
  define accA where "accA = (case Option.bind point valueA of
                      None \<Rightarrow> (Finite a, ca)
                    | Some v \<Rightarrow> (js_add (Finite a) v, ca + 1))"
  define accB where "accB = (case Option.bind point valueB of
                      None \<Rightarrow> (Finite b, cb)
                    | Some v \<Rightarrow> (js_add (Finite b) v, cb + 1))"
  have A: "\<exists>s. fst accA = Finite s \<and> 0 \<le> s \<and> s \<le> 100 * real (snd accA) \<and> snd accA \<le> m + 1"
  proof (cases "Option.bind point valueA")
    case None
    then show ?thesis using a cam by (simp add: accA_def)
  next
    case (Some v)
    from add_in_range [OF a pa [OF Some] ca32] cam show ?thesis by (simp add: accA_def Some)
  qed
  have B: "\<exists>s. fst accB = Finite s \<and> 0 \<le> s \<and> s \<le> 100 * real (snd accB) \<and> snd accB \<le> m + 1"
  proof (cases "Option.bind point valueB")
    case None
    then show ?thesis using b cbm by (simp add: accB_def)
  next
    case (Some v)
    from add_in_range [OF b pb [OF Some] cb32] cbm show ?thesis by (simp add: accB_def Some)
  qed
  have step: "compositeStep yr acc series = (fst accA, snd accA, fst accB, snd accB)"
    by (simp add: compositeStep_def acc Let_def point_def accA_def accB_def)
  from A B show ?thesis unfolding step sumsInRange_iff by blast
qed

lemma foldl_compositeStep_inv:
  "sumsInRange m acc \<Longrightarrow> m + length normed \<le> 2 ^ 32 \<Longrightarrow>
   \<forall>series\<in>set normed. \<forall>d\<in>set series. inRangeOrAbsent (valueA d) \<and> inRangeOrAbsent (valueB d) \<Longrightarrow>
   sumsInRange (m + length normed) (foldl (compositeStep yr) acc normed)"
proof (induction normed arbitrary: acc m)
  case Nil
  then show ?case by simp
next
  case (Cons series normed)
  from Cons.prems(2) have m: "m < 2 ^ 32" by simp
  from Cons.prems(1) m Cons.prems(3) have "sumsInRange (m + 1) (compositeStep yr acc series)"
    by (intro compositeStep_inv) simp_all
  from Cons.IH [OF this] Cons.prems(2,3) show ?case by simp
qed

lemma round_average_whole:
  assumes "0 \<le> s" and "s \<le> 100 * real n" and "0 < n"
  shows "isWholePercent (Math_round (js_div (Finite s) (Finite (real n))))"
proof -
  from assms have "0 \<le> s / real n" "s / real n \<le> 100"
    by (simp_all add: pos_divide_le_eq)
  from toDouble_between [OF toDouble_0 toDouble_100 this]
  obtain q where q: "toDouble (s / real n) = Finite q" and q0: "0 \<le> q" and q1: "q \<le> 100"
    by blast
  have "Math_round (js_div (Finite s) (Finite (real n))) = Finite (of_int \<lfloor>q + 1 / 2\<rfloor>)"
    using assms(3) by (simp add: q)
  moreover have "0 \<le> \<lfloor>q + 1 / 2\<rfloor>" using q0 by simp
  moreover have "\<lfloor>q + 1 / 2\<rfloor> \<le> 100" using q1 by (simp add: floor_le_iff)
  ultimately show ?thesis by simp
qed

lemma compositePoint_whole:
  assumes "\<forall>series\<in>set normed. \<forall>d\<in>set series.
             inRangeOrAbsent (valueA d) \<and> inRangeOrAbsent (valueB d)"
    and "length normed \<le> 2 ^ 32"
  shows "isWholePercent (scoreA (compositePoint normed yr))
       \<and> isWholePercent (scoreB (compositePoint normed yr))"
proof -
  have "sumsInRange 0 (Finite 0, 0, Finite 0, 0)" by (simp add: sumsInRange_iff)
  from foldl_compositeStep_inv [OF this _ assms(1), of yr] assms(2)
  have "sumsInRange (length normed) (foldl (compositeStep yr) (Finite 0, 0, Finite 0, 0) normed)"
    by simp
  then obtain a ca b cb where f: "foldl (compositeStep yr) (Finite 0, 0, Finite 0, 0) normed
      = (Finite a, ca, Finite b, cb)"
    and a: "0 \<le> a" "a \<le> 100 * real ca" and b: "0 \<le> b" "b \<le> 100 * real cb"
    by (rule sumsInRange_cases)
  have "isWholePercent (scoreA (compositePoint normed yr))"
    using round_average_whole [OF a] by (simp add: compositePoint_def f)
  moreover have "isWholePercent (scoreB (compositePoint normed yr))"
    using round_average_whole [OF b] by (simp add: compositePoint_def f)
  ultimately show ?thesis ..
qed

text \<open>The loop computes the rounded average of the description.\<close>

lemma foldl_compositeStep_eq:
  "foldl (compositeStep yr) (sa, ca, sb, cb) normed =
     (foldl js_add sa (yearValues valueA normed yr), ca + length (yearValues valueA normed yr),
      foldl js_add sb (yearValues valueB normed yr), cb + length (yearValues valueB normed yr))"
proof (induction normed arbitrary: sa ca sb cb)
  case Nil
  then show ?case by (simp add: yearValues_def)
next
  case (Cons series normed)
  define point where "point = find (\<lambda>d. tdp_year d = yr) series"
  have ya: "yearValues valueA (series # normed) yr =
      (case Option.bind point valueA of None \<Rightarrow> [] | Some v \<Rightarrow> [v]) @ yearValues valueA normed yr"
    by (simp add: yearValues_def point_def)
  have yb: "yearValues valueB (series # normed) yr =
      (case Option.bind point valueB of None \<Rightarrow> [] | Some v \<Rightarrow> [v]) @ yearValues valueB normed yr"
    by (simp add: yearValues_def point_def)
  have step: "compositeStep yr (sa, ca, sb, cb) series =
      (case Option.bind point valueA of None \<Rightarrow> sa | Some v \<Rightarrow> js_add sa v,
       case Option.bind point valueA of None \<Rightarrow> ca | Some v \<Rightarrow> ca + 1,
       case Option.bind point valueB of None \<Rightarrow> sb | Some v \<Rightarrow> js_add sb v,
       case Option.bind point valueB of None \<Rightarrow> cb | Some v \<Rightarrow> cb + 1)"
    by (simp add: compositeStep_def Let_def point_def split: option.splits)
  show ?case
    unfolding foldl_Cons step Cons.IH ya yb
    by (cases "Option.bind point valueA"; cases "Option.bind point valueB") simp_all
qed

lemma compositePoint_eq:
  "compositePoint normed yr =
     \<lparr>cp_year = yr,
      scoreA = roundedAverage (yearValues valueA normed yr),
      scoreB = roundedAverage (yearValues valueB normed yr),
      metricsUsed = max (length (yearValues valueA normed yr))
                        (length (yearValues valueB normed yr))\<rparr>"
  by (simp add: compositePoint_def foldl_compositeStep_eq roundedAverage_def)

text \<open>
  Claim C10, amended: for series whose values are absent or finite doubles, whose spread
  (largest minus smallest value) does not overflow, and that are fewer than \<open>2^32\<close> (as the
  elements of every JavaScript array are), \<^verbatim>\<open>normaliseSeries\<close> maps each present value into
  0 to 100, and every composite score of \<^verbatim>\<open>buildCompositeIndex\<close>, for both stocks and every
  year, is a whole number between 0 and 100: the rounded average of the normalised values
  that side has for the year, and 0 when it has none.
\<close>

theorem C10_composite_scores:
  assumes dbl: "\<forall>series\<in>set allSeries. \<forall>d\<in>set series.
                  doubleOrAbsent (valueA d) \<and> doubleOrAbsent (valueB d)"
    and nov: "\<forall>series\<in>set allSeries. \<not> spreadOverflows series"
    and len: "length allSeries < 2 ^ 32"
  shows "(\<forall>series\<in>set allSeries. \<forall>d\<in>set (normaliseSeries series).
            inRangeOrAbsent (valueA d) \<and> inRangeOrAbsent (valueB d))
       \<and> (\<forall>p\<in>set (buildCompositeIndex allSeries).
            isWholePercent (scoreA p) \<and> isWholePercent (scoreB p)
            \<and> scoreA p = roundedAverage (yearValues valueA
                  (filter (\<lambda>s. length s > 0) (map normaliseSeries allSeries)) (cp_year p))
            \<and> scoreB p = roundedAverage (yearValues valueB
                  (filter (\<lambda>s. length s > 0) (map normaliseSeries allSeries)) (cp_year p))
            \<and> (yearValues valueA
                  (filter (\<lambda>s. length s > 0) (map normaliseSeries allSeries)) (cp_year p) = []
                \<longrightarrow> scoreA p = Finite 0)
            \<and> (yearValues valueB
                  (filter (\<lambda>s. length s > 0) (map normaliseSeries allSeries)) (cp_year p) = []
                \<longrightarrow> scoreB p = Finite 0))"
proof
  show n: "\<forall>series\<in>set allSeries. \<forall>d\<in>set (normaliseSeries series).
            inRangeOrAbsent (valueA d) \<and> inRangeOrAbsent (valueB d)"
    using dbl nov normaliseSeries_in_range by blast
  define normed where "normed = filter (\<lambda>s. length s > 0) (map normaliseSeries allSeries)"
  have nr: "\<forall>series\<in>set normed. \<forall>d\<in>set series.
             inRangeOrAbsent (valueA d) \<and> inRangeOrAbsent (valueB d)"
    using n by (auto simp: normed_def)
  have "length normed \<le> length (map normaliseSeries allSeries)"
    unfolding normed_def by (rule length_filter_le)
  with len have nl: "length normed \<le> 2 ^ 32" by simp
  have "\<forall>p\<in>set (buildCompositeIndex allSeries).
            isWholePercent (scoreA p) \<and> isWholePercent (scoreB p)
            \<and> scoreA p = roundedAverage (yearValues valueA normed (cp_year p))
            \<and> scoreB p = roundedAverage (yearValues valueB normed (cp_year p))
            \<and> (yearValues valueA normed (cp_year p) = [] \<longrightarrow> scoreA p = Finite 0)
            \<and> (yearValues valueB normed (cp_year p) = [] \<longrightarrow> scoreB p = Finite 0)"
  proof
    fix p assume p: "p \<in> set (buildCompositeIndex allSeries)"
    have "buildCompositeIndex allSeries =
        (if length normed = 0 then []
         else map (compositePoint normed)
                (sort (remdups (concat (map (map tdp_year) normed)))))"
      unfolding buildCompositeIndex_def Let_def normed_def ..
    with p obtain yr where pyr: "p = compositePoint normed yr"
      by (auto split: if_splits)
    have yr: "cp_year p = yr" unfolding pyr by (simp add: compositePoint_eq)
    have sa: "scoreA p = roundedAverage (yearValues valueA normed yr)"
      and sb: "scoreB p = roundedAverage (yearValues valueB normed yr)"
      unfolding pyr by (simp_all add: compositePoint_eq)
    from compositePoint_whole [OF nr nl, of yr]
    have "isWholePercent (scoreA p)" "isWholePercent (scoreB p)"
      unfolding pyr by simp_all
    then show "isWholePercent (scoreA p) \<and> isWholePercent (scoreB p)
            \<and> scoreA p = roundedAverage (yearValues valueA normed (cp_year p))
            \<and> scoreB p = roundedAverage (yearValues valueB normed (cp_year p))
            \<and> (yearValues valueA normed (cp_year p) = [] \<longrightarrow> scoreA p = Finite 0)
            \<and> (yearValues valueB normed (cp_year p) = [] \<longrightarrow> scoreB p = Finite 0)"
      unfolding yr using sa sb by (simp add: roundedAverage_def)
  qed
  then show "\<forall>p\<in>set (buildCompositeIndex allSeries).
            isWholePercent (scoreA p) \<and> isWholePercent (scoreB p)
            \<and> scoreA p = roundedAverage (yearValues valueA
                  (filter (\<lambda>s. length s > 0) (map normaliseSeries allSeries)) (cp_year p))
            \<and> scoreB p = roundedAverage (yearValues valueB
                  (filter (\<lambda>s. length s > 0) (map normaliseSeries allSeries)) (cp_year p))
            \<and> (yearValues valueA
                  (filter (\<lambda>s. length s > 0) (map normaliseSeries allSeries)) (cp_year p) = []
                \<longrightarrow> scoreA p = Finite 0)
            \<and> (yearValues valueB
                  (filter (\<lambda>s. length s > 0) (map normaliseSeries allSeries)) (cp_year p) = []
                \<longrightarrow> scoreB p = Finite 0)"
    unfolding normed_def .
qed

text \<open>An index computed: two years, one metric.\<close>

lemma buildCompositeIndex_example:
  "buildCompositeIndex
     [[\<lparr>tdp_year = ''2024'', valueA = Some (Finite 30), valueB = None\<rparr>,
       \<lparr>tdp_year = ''2023'', valueA = Some (Finite 10), valueB = Some (Finite 30)\<rparr>]]
   = [\<lparr>cp_year = ''2023'', scoreA = Finite 0, scoreB = Finite 100, metricsUsed = 1\<rparr>,
      \<lparr>cp_year = ''2024'', scoreA = Finite 100, scoreB = Finite 0, metricsUsed = 1\<rparr>]"
proof -
  have ns: "normaliseSeries
     [\<lparr>tdp_year = ''2024'', valueA = Some (Finite 30), valueB = None\<rparr>,
      \<lparr>tdp_year = ''2023'', valueA = Some (Finite 10), valueB = Some (Finite 30)\<rparr>]
    = [\<lparr>tdp_year = ''2024'', valueA = Some (Finite 100), valueB = None\<rparr>,
       \<lparr>tdp_year = ''2023'', valueA = Some (Finite 0), valueB = Some (Finite 100)\<rparr>]"
    by (simp add: normaliseSeries_def nonNull_def Math_min_list_def Math_max_list_def
          Math_min_def Math_max_def js_sub_Finite orOne_def toDouble_numeral)
  have srt: "sort [''2024'', ''2023''] = [''2023'', ''2024'']"
    by (simp add: less_eq_char_def)
  show ?thesis
    by (simp add: buildCompositeIndex_def ns srt compositePoint_def compositeStep_def
          toDouble_numeral)
qed

theorem C10_composite_scores_witness:
  "doubleOrAbsent (Some (Finite 30)) \<and> doubleOrAbsent (Some (Finite 10))
   \<and> \<not> spreadOverflows
       [\<lparr>tdp_year = ''2024'', valueA = Some (Finite 30), valueB = None\<rparr>,
        \<lparr>tdp_year = ''2023'', valueA = Some (Finite 10), valueB = Some (Finite 30)\<rparr>]
   \<and> buildCompositeIndex
       [[\<lparr>tdp_year = ''2024'', valueA = Some (Finite 30), valueB = None\<rparr>,
         \<lparr>tdp_year = ''2023'', valueA = Some (Finite 10), valueB = Some (Finite 30)\<rparr>]]
     = [\<lparr>cp_year = ''2023'', scoreA = Finite 0, scoreB = Finite 100, metricsUsed = 1\<rparr>,
        \<lparr>cp_year = ''2024'', scoreA = Finite 100, scoreB = Finite 0, metricsUsed = 1\<rparr>]
   \<and> isWholePercent (scoreB (buildCompositeIndex
         [[\<lparr>tdp_year = ''2024'', valueA = Some (Finite 30), valueB = None\<rparr>,
           \<lparr>tdp_year = ''2023'', valueA = Some (Finite 10), valueB = Some (Finite 30)\<rparr>]] ! 0))
   \<and> isWholePercent (scoreA (buildCompositeIndex
         [[\<lparr>tdp_year = ''2024'', valueA = Some (Finite 30), valueB = None\<rparr>,
           \<lparr>tdp_year = ''2023'', valueA = Some (Finite 10), valueB = Some (Finite 30)\<rparr>]] ! 1))"
proof -
  let ?S = "[\<lparr>tdp_year = ''2024'', valueA = Some (Finite 30), valueB = None\<rparr>,
       \<lparr>tdp_year = ''2023'', valueA = Some (Finite 10), valueB = Some (Finite 30)\<rparr>]"
  have dbl: "doubleOrAbsent (Some (Finite 30))" "doubleOrAbsent (Some (Finite 10))"
    by (simp_all add: isDouble_def toDouble_numeral)
  have nov: "\<not> spreadOverflows ?S"
    by (simp add: spreadOverflows_def nonNull_def Math_min_list_def Math_max_list_def
          Math_min_def Math_max_def js_sub_Finite toDouble_numeral)
  have h1: "\<forall>series\<in>set [?S]. \<forall>d\<in>set series.
              doubleOrAbsent (valueA d) \<and> doubleOrAbsent (valueB d)"
    using dbl by simp
  have h2: "\<forall>series\<in>set [?S]. \<not> spreadOverflows series"
    using nov by simp
  have h3: "length [?S] < 2 ^ 32" by simp
  from C10_composite_scores [OF h1 h2 h3]
  have "\<forall>p\<in>set (buildCompositeIndex [?S]).
          isWholePercent (scoreA p) \<and> isWholePercent (scoreB p)"
    by blast
  then show ?thesis
    using dbl nov unfolding buildCompositeIndex_example by simp
qed

text \<open>
  Claim C10 as stated, for every input, fails: with the values \<open>2^1023\<close> and \<open>-2^1023\<close>,
  both doubles, \<^verbatim>\<open>max - min\<close> overflows to \<open>Infinity\<close>, the normalised value of the first
  stock is \<open>Infinity / Infinity\<close>, and its composite score is NaN.
\<close>

theorem C10_overflow_counterexample:
  "doubleOrAbsent (Some (Finite (2 ^ 1023)))
   \<and> doubleOrAbsent (Some (Finite (- (2 ^ 1023))))
   \<and> buildCompositeIndex
       [[\<lparr>tdp_year = ''2024'', valueA = Some (Finite (2 ^ 1023)),
          valueB = Some (Finite (- (2 ^ 1023)))\<rparr>]]
     = [\<lparr>cp_year = ''2024'', scoreA = NaN, scoreB = Finite 0, metricsUsed = 1\<rparr>]
   \<and> \<not> (\<forall>p\<in>set (buildCompositeIndex
           [[\<lparr>tdp_year = ''2024'', valueA = Some (Finite (2 ^ 1023)),
              valueB = Some (Finite (- (2 ^ 1023)))\<rparr>]]).
          inPercentRange (scoreA p) \<and> inPercentRange (scoreB p))"
proof -
  define big :: real where "big = 2 ^ 1023"
  have pos: "0 < big" by (simp add: big_def)
  have d1: "isDouble big" and d2: "isDouble (- big)"
    unfolding big_def by (rule isDouble_2_1023)+
  have "2 ^ 1024 \<le> 2 * big" by (simp add: big_def)
  then have ov: "toDouble (2 * big) = PosInf" by (rule toDouble_overflow)
  have ns: "normaliseSeries
       [\<lparr>tdp_year = ''2024'', valueA = Some (Finite big), valueB = Some (Finite (- big))\<rparr>]
     = [\<lparr>tdp_year = ''2024'', valueA = Some NaN, valueB = Some (Finite 0)\<rparr>]"
    using pos
    by (simp add: normaliseSeries_def nonNull_def Math_min_list_def Math_max_list_def
          Math_min_def Math_max_def js_sub_Finite orOne_def ov)
  have b: "buildCompositeIndex
       [[\<lparr>tdp_year = ''2024'', valueA = Some (Finite big), valueB = Some (Finite (- big))\<rparr>]]
     = [\<lparr>cp_year = ''2024'', scoreA = NaN, scoreB = Finite 0, metricsUsed = 1\<rparr>]"
    by (simp add: buildCompositeIndex_def ns compositePoint_def compositeStep_def)
  show ?thesis
    unfolding big_def [symmetric] using d1 d2 by (simp add: b)
qed

end
